theory Spec2Isabelle
  imports Complex_Main
begin

section \<open>The Genie conversation client (01-teams-bot/src/genie_client.py)\<close>

text \<open>
  The client submits a question, polls the message until it is terminal, fetches the
  tabular result of every attachment that names one, and builds a \<open>GenieResult\<close>.
  The model keeps the source's functions and makes its effects explicit:
  \<^item> an exception is a value \<open>Inl e\<close> of \<open>error + 'a\<close>;
  \<^item> the remote service is a set of oracles held by the client (its \<open>session\<close>), one per
    kind of request; the oracle of a request that the code repeats takes the position of
    the request in the call, so that every sequence of replies is some oracle;
  \<^item> \<open>time.sleep\<close> and every request append an event to a trace;
  \<^item> the poll loop may a priori run forever, so it is a partial function into \<open>option\<close>,
    and that it returns is proved.
\<close>

subsection \<open>Python values\<close>

text \<open>
  A key of a JSON object is missing, or holds \<open>null\<close>, or holds a value. \<open>d.get(k)\<close>
  gives \<open>None\<close> in the first two cases; \<open>d.get(k, x)\<close> gives \<open>x\<close> only when the key is
  missing. Python's \<open>None\<close> is \<open>None\<close> of \<open>option\<close>.
\<close>

datatype 'a entry = Missing | Null | Val 'a

fun py_get :: "'a entry \<Rightarrow> 'a option" where
  "py_get Missing = None"
| "py_get Null = None"
| "py_get (Val v) = Some v"

fun py_get_or :: "'a entry \<Rightarrow> 'a \<Rightarrow> 'a option" where
  "py_get_or Missing x = Some x"
| "py_get_or Null x = None"
| "py_get_or (Val v) x = Some v"

text \<open>
  The payload objects whose keys the code reads by name are kept as dictionaries from
  strings to strings or \<open>null\<close>, since the code tests them for emptiness.
\<close>

type_synonym pydict = "(string \<times> string option) list"

definition lookup :: "pydict \<Rightarrow> string \<Rightarrow> string entry" where
  "lookup d k = (case map_of d k of None \<Rightarrow> Missing | Some None \<Rightarrow> Null | Some (Some v) \<Rightarrow> Val v)"

text \<open>Truth value of an optional string: \<open>None\<close> and \<open>""\<close> are false.\<close>

fun truthy :: "string option \<Rightarrow> bool" where
  "truthy None = False"
| "truthy (Some s) = (s \<noteq> [])"

text \<open>\<open>a or b\<close>.\<close>

definition py_or :: "string option \<Rightarrow> string option \<Rightarrow> string option" where
  "py_or a b = (if truthy a then a else b)"

text \<open>An optional string inside an f-string.\<close>

fun fmt :: "string option \<Rightarrow> string" where
  "fmt None = ''None''"
| "fmt (Some s) = s"

subsection \<open>Data\<close>

type_synonym column = string
type_synonym row = "string list"

record GenieResult =
  res_status :: "string option"
  res_text :: "string option"
  res_sql :: "string option"
  res_columns :: "column list option"
  res_rows :: "row list option"
  res_error :: "string option"
  res_conversation_id :: "string option"
  res_message_id :: "string option"

text \<open>
  The bodies of the service's replies, with the keys the code reads. Each key is typed as
  the service sends it and as \<open>GenieResult\<close> declares the field it ends in: the status and
  the error message are strings, the attachments a list of objects, the text and query
  payloads objects. A body of another shape (a number where an object is read) is outside
  the model.
\<close>

record attachment =
  att_text :: "pydict entry"
  att_query :: "pydict entry"
  att_attachment_id :: "string entry"

record message =
  msg_status :: "string entry"
  msg_error :: "string entry"
  msg_attachments :: "attachment list entry"

record query_result =
  qr_columns :: "column list entry"
  qr_rows :: "row list entry"

subsection \<open>Transport\<close>

text \<open>
  A request either raises in the transport (\<open>Unreachable\<close>) or gives a reply with a
  status code and a body, which is JSON of the expected shape or not JSON at all.
  \<open>raise_for_status\<close> raises on 4xx and 5xx, \<open>resp.json()\<close> on a body that is not JSON,
  \<open>time.sleep\<close> on a negative delay.
\<close>

datatype error = ConnectionError | HTTPError nat | JSONDecodeError | ValueError

datatype 'a reply = Unreachable | Reply nat "'a option"

fun raise_for_status :: "nat \<Rightarrow> error + unit" where
  "raise_for_status code = (if 400 \<le> code \<and> code < 600 then Inl (HTTPError code) else Inr ())"

fun fetch_json :: "'a reply \<Rightarrow> error + 'a" where
  "fetch_json Unreachable = Inl ConnectionError"
| "fetch_json (Reply code body) =
     (case raise_for_status code of
        Inl e \<Rightarrow> Inl e
      | Inr _ \<Rightarrow> (case body of None \<Rightarrow> Inl JSONDecodeError | Some data \<Rightarrow> Inr data))"

datatype event = Sleep rat | Post string | Get string

record GenieClient =
  host :: string
  space_id :: string
  session_post :: "string \<Rightarrow> string \<Rightarrow> pydict reply"
  session_get_message :: "string \<Rightarrow> nat \<Rightarrow> message reply"
  session_get_query_result :: "string \<Rightarrow> nat \<Rightarrow> query_result reply"

text \<open>
  \<open>session_post url question\<close> is the reply to the one POST of a call;
  \<open>session_get_message url k\<close> the reply to the \<open>k\<close>-th GET of the poll loop (from 0);
  \<open>session_get_query_result url i\<close> the reply to the GET issued for the \<open>i\<close>-th attachment.
\<close>

abbreviation POLL_INTERVAL_INITIAL :: rat where "POLL_INTERVAL_INITIAL \<equiv> 1"
abbreviation POLL_INTERVAL_MAX :: rat where "POLL_INTERVAL_MAX \<equiv> 10"
abbreviation POLL_TIMEOUT :: rat where "POLL_TIMEOUT \<equiv> 300"

text \<open>
  The delays are Python floats. Every value the loop computes from its initial state is
  a multiple of \<open>1/64\<close> below \<open>2 ^ 9\<close>, which binary64 holds exactly, so the rationals
  compute what the floats compute.
\<close>

subsection \<open>URLs\<close>

definition spaces_url :: "GenieClient \<Rightarrow> string" where
  "spaces_url self = host self @ ''/api/2.0/genie/spaces/'' @ space_id self"

definition start_url :: "GenieClient \<Rightarrow> string" where
  "start_url self = spaces_url self @ ''/start-conversation''"

definition messages_url :: "GenieClient \<Rightarrow> string \<Rightarrow> string" where
  "messages_url self conversation_id =
     spaces_url self @ ''/conversations/'' @ conversation_id @ ''/messages''"

definition message_url :: "GenieClient \<Rightarrow> string option \<Rightarrow> string option \<Rightarrow> string" where
  "message_url self conversation_id message_id =
     spaces_url self @ ''/conversations/'' @ fmt conversation_id @ ''/messages/'' @ fmt message_id"

definition query_result_url ::
  "GenieClient \<Rightarrow> string option \<Rightarrow> string option \<Rightarrow> string \<Rightarrow> string" where
  "query_result_url self conversation_id message_id attachment_id =
     message_url self conversation_id message_id
       @ ''/attachments/'' @ attachment_id @ ''/query-result''"

subsection \<open>Normalising a terminal message\<close>

definition get_query_result ::
  "GenieClient \<Rightarrow> string option \<Rightarrow> string option \<Rightarrow> string \<Rightarrow> nat \<Rightarrow> error + query_result" where
  "get_query_result self conversation_id message_id attachment_id i =
     fetch_json (session_get_query_result self
       (query_result_url self conversation_id message_id attachment_id) i)"

text \<open>The local variables of \<open>_parse_response\<close> that its loop updates, and the trace.\<close>

record scan =
  text_content :: "string option"
  sql_content :: "string option"
  columns :: "column list option"
  rows :: "row list option"
  events :: "event list"

text \<open>\<open>if att.get("text"): text_content = att["text"].get("content", "")\<close>\<close>

definition scan_text :: "attachment \<Rightarrow> scan \<Rightarrow> scan" where
  "scan_text att st =
     (case att_text att of
        Val d \<Rightarrow> if d \<noteq> [] then st\<lparr>text_content := py_get_or (lookup d ''content'') ''''\<rparr> else st
      | _ \<Rightarrow> st)"

text \<open>\<open>if att.get("query"): sql_content = att["query"].get("query", "")\<close>\<close>

definition scan_query :: "attachment \<Rightarrow> scan \<Rightarrow> scan" where
  "scan_query att st =
     (case att_query att of
        Val d \<Rightarrow> if d \<noteq> [] then st\<lparr>sql_content := py_get_or (lookup d ''query'') ''''\<rparr> else st
      | _ \<Rightarrow> st)"

text \<open>
  The fetch of the tabular result, inside \<open>try\<close>: any exception leaves \<open>columns\<close> and
  \<open>rows\<close> as they were.
\<close>

definition scan_result ::
  "GenieClient \<Rightarrow> string option \<Rightarrow> string option \<Rightarrow> string option \<Rightarrow> nat \<Rightarrow> attachment \<Rightarrow> scan \<Rightarrow> scan" where
  "scan_result self status conversation_id message_id i att st =
     (case py_get (att_attachment_id att) of
        None \<Rightarrow> st
      | Some att_id \<Rightarrow>
          if att_id \<noteq> [] \<and> status = Some ''COMPLETED'' then
            (let st' = st\<lparr>events := events st
                         @ [Get (query_result_url self conversation_id message_id att_id)]\<rparr>
             in case get_query_result self conversation_id message_id att_id i of
                  Inr qr \<Rightarrow> st'\<lparr>columns := py_get_or (qr_columns qr) [],
                               rows := py_get_or (qr_rows qr) []\<rparr>
                | Inl e \<Rightarrow> st')
          else st)"

definition scan_attachment ::
  "GenieClient \<Rightarrow> string option \<Rightarrow> string option \<Rightarrow> string option \<Rightarrow> nat \<Rightarrow> attachment \<Rightarrow> scan \<Rightarrow> scan" where
  "scan_attachment self status conversation_id message_id i att st =
     scan_result self status conversation_id message_id i att (scan_query att (scan_text att st))"

fun scan_attachments ::
  "GenieClient \<Rightarrow> string option \<Rightarrow> string option \<Rightarrow> string option \<Rightarrow> nat \<Rightarrow> attachment list \<Rightarrow> scan \<Rightarrow> scan" where
  "scan_attachments self status conversation_id message_id i [] st = st"
| "scan_attachments self status conversation_id message_id i (att # atts) st =
     scan_attachments self status conversation_id message_id (Suc i) atts
       (scan_attachment self status conversation_id message_id i att st)"

text \<open>\<open>data.get("attachments") or []\<close>\<close>

fun attachments_of :: "message \<Rightarrow> attachment list" where
  "attachments_of data = (case py_get (msg_attachments data) of None \<Rightarrow> [] | Some atts \<Rightarrow> atts)"

text \<open>\<open>str(error) if error else None\<close>; the error is a string, which \<open>str\<close> returns as it is.\<close>

fun error_of :: "message \<Rightarrow> string option" where
  "error_of data = (if truthy (py_get (msg_error data)) then py_get (msg_error data) else None)"

definition parse_response ::
  "GenieClient \<Rightarrow> message \<Rightarrow> string option \<Rightarrow> string option \<Rightarrow> event list \<times> GenieResult" where
  "parse_response self data conversation_id message_id =
     (let status = py_get_or (msg_status data) ''UNKNOWN'';
          st = scan_attachments self status conversation_id message_id 0 (attachments_of data)
                 \<lparr>text_content = None, sql_content = None,
                  columns = Some [], rows = Some [], events = []\<rparr>
      in (events st,
          \<lparr>res_status = status, res_text = text_content st, res_sql = sql_content st,
           res_columns = columns st, res_rows = rows st, res_error = error_of data,
           res_conversation_id = conversation_id, res_message_id = message_id\<rparr>))"

subsection \<open>Polling\<close>

definition timeout_result :: "string option \<Rightarrow> string option \<Rightarrow> GenieResult" where
  "timeout_result conversation_id message_id =
     \<lparr>res_status = Some ''TIMEOUT'', res_text = None, res_sql = None,
      res_columns = Some [], res_rows = Some [],
      res_error = Some ''Genie did not respond within the timeout period.'',
      res_conversation_id = conversation_id, res_message_id = message_id\<rparr>"

definition terminal :: "string option \<Rightarrow> bool" where
  "terminal status =
     (status = Some ''COMPLETED'' \<or> status = Some ''FAILED'' \<or> status = Some ''CANCELLED'')"

text \<open>
  The \<open>while\<close> loop of \<open>_poll\<close>, with its variables \<open>interval\<close> and \<open>elapsed\<close>, the number
  \<open>k\<close> of GETs made so far and the trace so far.
\<close>

partial_function (option) poll_loop ::
  "GenieClient \<Rightarrow> string option \<Rightarrow> string option \<Rightarrow> rat \<Rightarrow> rat \<Rightarrow> nat \<Rightarrow> event list
     \<Rightarrow> (event list \<times> (error + GenieResult)) option" where
  "poll_loop self conversation_id message_id interval elapsed k tr =
     (if elapsed < POLL_TIMEOUT then
        if interval < 0 then Some (tr, Inl ValueError)
        else
          (case fetch_json (session_get_message self
                  (message_url self conversation_id message_id) k) of
             Inl e \<Rightarrow>
               Some (tr @ [Sleep interval, Get (message_url self conversation_id message_id)],
                     Inl e)
           | Inr data \<Rightarrow>
               if terminal (py_get_or (msg_status data) '''') then
                 Some (tr @ [Sleep interval, Get (message_url self conversation_id message_id)]
                          @ fst (parse_response self data conversation_id message_id),
                       Inr (snd (parse_response self data conversation_id message_id)))
               else
                 poll_loop self conversation_id message_id
                   (min (interval * (3 / 2)) POLL_INTERVAL_MAX) (elapsed + interval) (Suc k)
                   (tr @ [Sleep interval, Get (message_url self conversation_id message_id)]))
      else Some (tr, Inr (timeout_result conversation_id message_id)))"

definition poll ::
  "GenieClient \<Rightarrow> string option \<Rightarrow> string option \<Rightarrow> event list
     \<Rightarrow> (event list \<times> (error + GenieResult)) option" where
  "poll self conversation_id message_id tr =
     poll_loop self conversation_id message_id POLL_INTERVAL_INITIAL 0 0 tr"

subsection \<open>Submitting\<close>

definition start_conversation ::
  "GenieClient \<Rightarrow> string \<Rightarrow> (event list \<times> (error + GenieResult)) option" where
  "start_conversation self question =
     (case fetch_json (session_post self (start_url self) question) of
        Inl e \<Rightarrow> Some ([Post (start_url self)], Inl e)
      | Inr data \<Rightarrow>
          poll self (py_get_or (lookup data ''conversation_id'') '''')
            (py_or (py_get (lookup data ''message_id'')) (py_get_or (lookup data ''id'') ''''))
            [Post (start_url self)])"

definition follow_up ::
  "GenieClient \<Rightarrow> string \<Rightarrow> string \<Rightarrow> (event list \<times> (error + GenieResult)) option" where
  "follow_up self conversation_id question =
     (case fetch_json (session_post self (messages_url self conversation_id) question) of
        Inl e \<Rightarrow> Some ([Post (messages_url self conversation_id)], Inl e)
      | Inr data \<Rightarrow>
          poll self (Some conversation_id) (py_get_or (lookup data ''id'') '''')
            [Post (messages_url self conversation_id)])"

definition ask ::
  "GenieClient \<Rightarrow> string \<Rightarrow> string option \<Rightarrow> (event list \<times> (error + GenieResult)) option" where
  "ask self question conversation_id =
     (if truthy conversation_id then follow_up self (the conversation_id) question
      else start_conversation self question)"

subsection \<open>Notions used in the statements\<close>

text \<open>
  The state of the poll loop before its \<open>k\<close>-th GET, computed as the loop computes it:
  the delay it is about to sleep and the time it has slept so far.
\<close>

fun interval_at :: "nat \<Rightarrow> rat" where
  "interval_at 0 = POLL_INTERVAL_INITIAL"
| "interval_at (Suc k) = min (interval_at k * (3 / 2)) POLL_INTERVAL_MAX"

fun elapsed_at :: "nat \<Rightarrow> rat" where
  "elapsed_at 0 = 0"
| "elapsed_at (Suc k) = elapsed_at k + interval_at k"

text \<open>The \<open>k\<close>-th GET of the poll loop is answered, with a status that is not terminal.\<close>

definition pending :: "GenieClient \<Rightarrow> string option \<Rightarrow> string option \<Rightarrow> nat \<Rightarrow> bool" where
  "pending self conversation_id message_id k =
     (case fetch_json (session_get_message self (message_url self conversation_id message_id) k) of
        Inl e \<Rightarrow> False
      | Inr data \<Rightarrow> \<not> terminal (py_get_or (msg_status data) ''''))"

text \<open>The trace of the iterations \<open>k\<close> to \<open>n - 1\<close> of the poll loop.\<close>

definition poll_events :: "string \<Rightarrow> nat \<Rightarrow> nat \<Rightarrow> event list" where
  "poll_events url k n = concat (map (\<lambda>j. [Sleep (interval_at j), Get url]) [k..<n])"

fun sleeps :: "event list \<Rightarrow> rat list" where
  "sleeps [] = []"
| "sleeps (Sleep d # tr) = d # sleeps tr"
| "sleeps (e # tr) = sleeps tr"

fun gets :: "event list \<Rightarrow> string list" where
  "gets [] = []"
| "gets (Get url # tr) = url # gets tr"
| "gets (e # tr) = gets tr"

fun posts :: "event list \<Rightarrow> string list" where
  "posts [] = []"
| "posts (Post url # tr) = url # posts tr"
| "posts (e # tr) = posts tr"

text \<open>
  The submit phase of \<open>ask\<close>: the URL it posts to, and what the POST gives, an error or
  the conversation and message identifiers with which \<open>_poll\<close> is entered
  (lines 80 to 85 of \<open>_start_conversation\<close>, lines 89 to 96 of \<open>_follow_up\<close>).
\<close>

definition submit_url :: "GenieClient \<Rightarrow> string option \<Rightarrow> string" where
  "submit_url self conversation_id =
     (if truthy conversation_id then messages_url self (the conversation_id) else start_url self)"

definition submission ::
  "GenieClient \<Rightarrow> string \<Rightarrow> string option \<Rightarrow> error + (string option \<times> string option)" where
  "submission self question conversation_id =
     (case fetch_json (session_post self (submit_url self conversation_id) question) of
        Inl e \<Rightarrow> Inl e
      | Inr data \<Rightarrow>
          if truthy conversation_id then
            Inr (conversation_id, py_get_or (lookup data ''id'') '''')
          else
            Inr (py_get_or (lookup data ''conversation_id'') '''',
                 py_or (py_get (lookup data ''message_id'')) (py_get_or (lookup data ''id'') '''')))"

text \<open>
  The object that the code's test \<open>if att.get("text")\<close> lets through: the value under the
  key, when it is an object with at least one key of its own; likewise for \<open>"query"\<close>. An
  attachment carries a tabular-result identifier when \<open>att.get("attachment_id")\<close> is a
  non-empty string.
\<close>

fun text_payload :: "attachment \<Rightarrow> pydict option" where
  "text_payload att = (case att_text att of Val d \<Rightarrow> if d \<noteq> [] then Some d else None | _ \<Rightarrow> None)"

fun query_payload :: "attachment \<Rightarrow> pydict option" where
  "query_payload att = (case att_query att of Val d \<Rightarrow> if d \<noteq> [] then Some d else None | _ \<Rightarrow> None)"

fun result_id :: "attachment \<Rightarrow> string option" where
  "result_id att =
     (case py_get (att_attachment_id att) of
        None \<Rightarrow> None
      | Some a \<Rightarrow> if a \<noteq> [] then Some a else None)"

text \<open>
  What the loop of \<open>_parse_response\<close> leaves in \<open>text_content\<close> and \<open>sql_content\<close>: it
  assigns them at every attachment that passes the test above, so what is left is what
  \<open>.get("content", "")\<close> and \<open>.get("query", "")\<close> read from the last such attachment,
  be it empty or \<open>None\<close>.
\<close>

definition gathered_text :: "attachment list \<Rightarrow> string option" where
  "gathered_text atts =
     (let ps = List.map_filter text_payload atts
      in if ps = [] then None else py_get_or (lookup (last ps) ''content'') '''')"

definition gathered_query :: "attachment list \<Rightarrow> string option" where
  "gathered_query atts =
     (let ps = List.map_filter query_payload atts
      in if ps = [] then None else py_get_or (lookup (last ps) ''query'') '''')"

text \<open>
  The spec's words: the last non-empty text, and the last non-empty generated query, seen
  across the attachments in the order supplied. The text of an attachment is the string
  under \<open>content\<close> of its text payload, its query the string under \<open>query\<close> of its query
  payload; non-empty is said of that string.
\<close>

fun text_of :: "attachment \<Rightarrow> string option" where
  "text_of att =
     (case att_text att of
        Val d \<Rightarrow> (case lookup d ''content'' of
                    Val t \<Rightarrow> if t \<noteq> [] then Some t else None
                  | _ \<Rightarrow> None)
      | _ \<Rightarrow> None)"

fun query_of :: "attachment \<Rightarrow> string option" where
  "query_of att =
     (case att_query att of
        Val d \<Rightarrow> (case lookup d ''query'' of
                    Val s \<Rightarrow> if s \<noteq> [] then Some s else None
                  | _ \<Rightarrow> None)
      | _ \<Rightarrow> None)"

definition last_text :: "attachment list \<Rightarrow> string option" where
  "last_text atts =
     (let ts = List.map_filter text_of atts in if ts = [] then None else Some (last ts))"

definition last_query :: "attachment list \<Rightarrow> string option" where
  "last_query atts =
     (let ss = List.map_filter query_of atts in if ss = [] then None else Some (last ss))"

text \<open>
  Every attachment that passes the code's test for a text carries a non-empty text;
  likewise for the queries.
\<close>

definition texts_filled :: "attachment list \<Rightarrow> bool" where
  "texts_filled atts =
     list_all (\<lambda>att. case text_payload att of None \<Rightarrow> True | Some d \<Rightarrow> text_of att \<noteq> None) atts"

definition queries_filled :: "attachment list \<Rightarrow> bool" where
  "queries_filled atts =
     list_all (\<lambda>att. case query_payload att of None \<Rightarrow> True | Some d \<Rightarrow> query_of att \<noteq> None) atts"

text \<open>
  The number of iterations of the poll loop, read off the service's answers: one more than
  the number of GETs answered in a row, from the first, with a status that is not
  terminal, and at most the 34 that the budget allows.
\<close>

definition polls :: "GenieClient \<Rightarrow> string option \<Rightarrow> string option \<Rightarrow> nat" where
  "polls self conversation_id message_id =
     min 34 (Suc (length (takeWhile (pending self conversation_id message_id) [0..<34])))"

text \<open>
  An attachment that carries only a text payload, with the text \<open>t\<close>; an attachment that
  carries only a generated-query payload, with the query \<open>s\<close>.
\<close>

definition only_text :: "attachment \<Rightarrow> string \<Rightarrow> bool" where
  "only_text att t =
     ((case text_payload att of None \<Rightarrow> False | Some d \<Rightarrow> lookup d ''content'' = Val t)
      \<and> query_payload att = None)"

definition only_query :: "attachment \<Rightarrow> string \<Rightarrow> bool" where
  "only_query att s =
     ((case query_payload att of None \<Rightarrow> False | Some d \<Rightarrow> lookup d ''query'' = Val s)
      \<and> text_payload att = None)"

text \<open>
  Every fetch of a tabular result that the scan of \<open>atts\<close> issues, the first attachment
  being the \<open>i\<close>-th of the message, raises.
\<close>

fun fetches_fail ::
  "GenieClient \<Rightarrow> string option \<Rightarrow> string option \<Rightarrow> nat \<Rightarrow> attachment list \<Rightarrow> bool" where
  "fetches_fail self conversation_id message_id i [] = True"
| "fetches_fail self conversation_id message_id i (att # atts) =
     ((case result_id att of
         None \<Rightarrow> True
       | Some a \<Rightarrow> isl (get_query_result self conversation_id message_id a i))
      \<and> fetches_fail self conversation_id message_id (Suc i) atts)"

text \<open>
  The poll loop sees its first terminal status at its \<open>K\<close>-th GET, in the message
  \<open>data\<close>, within the budget: every earlier GET was answered with a status that is not
  terminal. The loop makes at most 34 GETs (see \<open>elapsed_at\<close>).
\<close>

definition answers ::
  "GenieClient \<Rightarrow> string option \<Rightarrow> string option \<Rightarrow> nat \<Rightarrow> message \<Rightarrow> bool" where
  "answers self conversation_id message_id K data =
     (K < 34 \<and> (\<forall>j<K. pending self conversation_id message_id j)
      \<and> fetch_json (session_get_message self (message_url self conversation_id message_id) K)
          = Inr data
      \<and> terminal (py_get_or (msg_status data) ''''))"

text \<open>The parts of an outcome: the result returned, the error raised, the trace.\<close>

fun returned :: "(event list \<times> (error + GenieResult)) option \<Rightarrow> GenieResult option" where
  "returned (Some (tr, Inr r)) = Some r"
| "returned _ = None"

fun raised :: "(event list \<times> (error + GenieResult)) option \<Rightarrow> error option" where
  "raised (Some (tr, Inl e)) = Some e"
| "raised _ = None"

fun trace_of :: "(event list \<times> (error + GenieResult)) option \<Rightarrow> event list" where
  "trace_of (Some (tr, out)) = tr"
| "trace_of None = []"

subsection \<open>Concrete services\<close>

definition ok :: "'a \<Rightarrow> 'a reply" where
  "ok body = Reply 200 (Some body)"

definition started :: pydict where
  "started = [(''conversation_id'', Some ''c1''), (''message_id'', Some ''m1'')]"

definition text_att :: "string \<Rightarrow> attachment" where
  "text_att t =
     \<lparr>att_text = Val [(''content'', Some t)], att_query = Missing, att_attachment_id = Missing\<rparr>"

definition query_att :: "string \<Rightarrow> attachment" where
  "query_att s =
     \<lparr>att_text = Missing, att_query = Val [(''query'', Some s)], att_attachment_id = Missing\<rparr>"

definition table_att :: "string \<Rightarrow> attachment" where
  "table_att a = \<lparr>att_text = Missing, att_query = Missing, att_attachment_id = Val a\<rparr>"

definition running :: message where
  "running = \<lparr>msg_status = Val ''EXECUTING_QUERY'', msg_error = Missing, msg_attachments = Missing\<rparr>"

definition completed :: "attachment list \<Rightarrow> message" where
  "completed atts = \<lparr>msg_status = Val ''COMPLETED'', msg_error = Missing, msg_attachments = Val atts\<rparr>"

definition client_with ::
  "pydict reply \<Rightarrow> (nat \<Rightarrow> message reply) \<Rightarrow> (nat \<Rightarrow> query_result reply) \<Rightarrow> GenieClient" where
  "client_with p g r =
     \<lparr>host = ''https://h'', space_id = ''s'',
      session_post = (\<lambda>url question. p),
      session_get_message = (\<lambda>url. g),
      session_get_query_result = (\<lambda>url. r)\<rparr>"

text \<open>Completed at the second GET, with a text in one attachment and a query in another.\<close>

definition client_done :: GenieClient where
  "client_done =
     client_with (ok started)
       (\<lambda>k. if k = 0 then ok running else ok (completed [text_att ''42'', query_att ''SELECT 1'']))
       (\<lambda>i. Unreachable)"

text \<open>Never terminal.\<close>

definition client_pending :: GenieClient where
  "client_pending = client_with (ok started) (\<lambda>k. ok running) (\<lambda>i. Unreachable)"

text \<open>Failed at the first GET, with an error message and a text gathered.\<close>

definition client_failed :: GenieClient where
  "client_failed =
     client_with (ok started)
       (\<lambda>k. ok \<lparr>msg_status = Val ''FAILED'', msg_error = Val ''boom'',
                 msg_attachments = Val [text_att ''partial'']\<rparr>)
       (\<lambda>i. Unreachable)"

text \<open>Completed with one attachment that carries everything; the tabular fetch fails.\<close>

definition client_table_down :: GenieClient where
  "client_table_down =
     client_with (ok started)
       (\<lambda>k. ok (completed [\<lparr>att_text = Val [(''content'', Some ''42'')],
                             att_query = Val [(''query'', Some ''SELECT 1'')],
                             att_attachment_id = Val ''a''\<rparr>]))
       (\<lambda>i. Unreachable)"

text \<open>
  Completed with two attachments that each name a tabular result; the first fetch
  succeeds, the second fails.
\<close>

definition client_tables :: GenieClient where
  "client_tables =
     client_with (ok started)
       (\<lambda>k. ok (completed [table_att ''a'', table_att ''b'']))
       (\<lambda>i. if i = 0 then ok \<lparr>qr_columns = Val [''n''], qr_rows = Val [[''1'']]\<rparr>
            else Unreachable)"

text \<open>The service answers 503 to the POST; the service answers 503 to the first GET.\<close>

definition client_submit_down :: GenieClient where
  "client_submit_down = client_with (Reply 503 None) (\<lambda>k. ok running) (\<lambda>i. Unreachable)"

definition client_poll_down :: GenieClient where
  "client_poll_down = client_with (ok started) (\<lambda>k. Reply 503 None) (\<lambda>i. Unreachable)"

text \<open>A follow-up, completed at the first GET with a text.\<close>

definition client_followed :: GenieClient where
  "client_followed =
     client_with (ok [(''id'', Some ''m2'')])
       (\<lambda>k. ok (completed [text_att ''still 42'']))
       (\<lambda>i. Unreachable)"

text \<open>
  Completed at the first GET with two text attachments, the second with an empty text.
\<close>

definition client_overwritten :: GenieClient where
  "client_overwritten =
     client_with (ok started)
       (\<lambda>k. ok (completed [text_att ''42'', text_att '''']))
       (\<lambda>i. Unreachable)"

text \<open>The transport raises on the POST; the transport raises on the first GET.\<close>

definition client_unreachable :: GenieClient where
  "client_unreachable = client_with Unreachable (\<lambda>k. ok running) (\<lambda>i. Unreachable)"

definition client_poll_unreachable :: GenieClient where
  "client_poll_unreachable = client_with (ok started) (\<lambda>k. Unreachable) (\<lambda>i. Unreachable)"

section \<open>The backoff schedule\<close>

lemma interval_at_ge1: "1 \<le> interval_at k"
  by (induction k) auto

lemma interval_at_le10: "interval_at k \<le> 10"
  by (cases k) auto

lemma interval_at_6: "interval_at 6 = 10"
  by (simp add: eval_nat_numeral)

lemma interval_at_late: "6 \<le> k \<Longrightarrow> interval_at k = 10"
  by (induction k rule: nat_induct_at_least) (simp_all add: interval_at_6)

lemma elapsed_at_6: "elapsed_at 6 = 665 / 32"
  by (simp add: eval_nat_numeral)

lemma elapsed_at_late: "6 \<le> k \<Longrightarrow> elapsed_at k = 665 / 32 + 10 * of_nat (k - 6)"
  by (induction k rule: nat_induct_at_least)
    (simp_all add: elapsed_at_6 interval_at_late Suc_diff_le algebra_simps)

lemma elapsed_at_mono: "i \<le> j \<Longrightarrow> elapsed_at i \<le> elapsed_at j"
proof (induction j)
  case 0
  then show ?case by simp
next
  case (Suc j)
  have "0 \<le> interval_at j" using interval_at_ge1 [of j] by linarith
  with Suc show ?case by (cases "i = Suc j") auto
qed

lemma elapsed_at_budget: "k < 34 \<Longrightarrow> elapsed_at k < 300"
proof (cases "6 \<le> k")
  case True
  assume "k < 34"
  then have "k - 6 \<le> 27" by simp
  then have "(of_nat (k - 6) :: rat) \<le> 27" by (metis of_nat_le_iff of_nat_numeral)
  then show ?thesis by (simp add: elapsed_at_late [OF True])
next
  case False
  then have "elapsed_at k \<le> elapsed_at 6" by (intro elapsed_at_mono) simp
  then show ?thesis by (simp add: elapsed_at_6)
qed

lemma elapsed_at_34: "elapsed_at 34 = 9625 / 32"
  by (simp add: elapsed_at_late)

section \<open>The poll loop, iteration by iteration\<close>

lemma poll_loop_pending:
  assumes "k < 34" and "pending self c m k"
  shows "poll_loop self c m (interval_at k) (elapsed_at k) k tr =
         poll_loop self c m (interval_at (Suc k)) (elapsed_at (Suc k)) (Suc k)
           (tr @ [Sleep (interval_at k), Get (message_url self c m)])"
proof -
  have e: "elapsed_at k < 300" using assms(1) by (rule elapsed_at_budget)
  have i: "\<not> interval_at k < 0" using interval_at_ge1 [of k] by linarith
  from assms(2) obtain data where
    d: "fetch_json (session_get_message self (message_url self c m) k) = Inr data"
    and t: "\<not> terminal (py_get_or (msg_status data) '''')"
    by (auto simp: pending_def split: sum.splits)
  show ?thesis
    by (subst poll_loop.simps) (simp add: e i d t)
qed

lemma poll_events_Suc:
  "k \<le> n \<Longrightarrow> poll_events url k (Suc n) = poll_events url k n @ [Sleep (interval_at n), Get url]"
  by (simp add: poll_events_def)

lemma poll_loop_run:
  assumes "\<forall>j<K. pending self c m j"
  shows "d \<le> K \<Longrightarrow> K \<le> 34 \<Longrightarrow> poll self c m tr =
         poll_loop self c m (interval_at d) (elapsed_at d) d
           (tr @ poll_events (message_url self c m) 0 d)"
proof (induction d)
  case 0
  show ?case by (simp add: poll_def poll_events_def)
next
  case (Suc d)
  then have "d < 34" and "pending self c m d" using assms by auto
  from poll_loop_pending [OF this] Suc show ?case
    by (simp add: poll_events_Suc)
qed

lemma poll_timeout:
  assumes "\<forall>j<34. pending self c m j"
  shows "poll self c m tr =
         Some (tr @ poll_events (message_url self c m) 0 34, Inr (timeout_result c m))"
proof -
  have "\<not> elapsed_at 34 < 300" by (simp add: elapsed_at_34)
  then show ?thesis
    by (subst poll_loop_run [OF assms, of 34]) (simp_all add: poll_loop.simps [of _ _ _ _ "elapsed_at 34"])
qed

lemma poll_error:
  assumes "K < 34" and "\<forall>j<K. pending self c m j"
    and "fetch_json (session_get_message self (message_url self c m) K) = Inl e"
  shows "poll self c m tr = Some (tr @ poll_events (message_url self c m) 0 (Suc K), Inl e)"
proof -
  have el: "elapsed_at K < 300" using assms(1) by (rule elapsed_at_budget)
  have i: "\<not> interval_at K < 0" using interval_at_ge1 [of K] by linarith
  have "poll self c m tr = poll_loop self c m (interval_at K) (elapsed_at K) K
           (tr @ poll_events (message_url self c m) 0 K)"
    using assms(1) by (intro poll_loop_run [OF assms(2)]) simp_all
  also have "\<dots> = Some (tr @ poll_events (message_url self c m) 0 (Suc K), Inl e)"
    by (subst poll_loop.simps) (simp add: el i assms(3) poll_events_Suc)
  finally show ?thesis .
qed

lemma poll_terminal:
  assumes "K < 34" and "\<forall>j<K. pending self c m j"
    and "fetch_json (session_get_message self (message_url self c m) K) = Inr data"
    and "terminal (py_get_or (msg_status data) '''')"
  shows "poll self c m tr =
         Some (tr @ poll_events (message_url self c m) 0 (Suc K)
                  @ fst (parse_response self data c m),
               Inr (snd (parse_response self data c m)))"
proof -
  have el: "elapsed_at K < 300" using assms(1) by (rule elapsed_at_budget)
  have i: "\<not> interval_at K < 0" using interval_at_ge1 [of K] by linarith
  have "poll self c m tr = poll_loop self c m (interval_at K) (elapsed_at K) K
           (tr @ poll_events (message_url self c m) 0 K)"
    using assms(1) by (intro poll_loop_run [OF assms(2)]) simp_all
  also have "\<dots> = Some (tr @ poll_events (message_url self c m) 0 (Suc K)
                  @ fst (parse_response self data c m),
               Inr (snd (parse_response self data c m)))"
    by (subst poll_loop.simps) (simp add: el i assms(3,4) poll_events_Suc)
  finally show ?thesis .
qed

lemma poll_cases:
  obtains (timeout) "\<forall>j<34. pending self c m j"
      "poll self c m tr =
         Some (tr @ poll_events (message_url self c m) 0 34, Inr (timeout_result c m))"
  | (error) K e where "K < 34" "\<forall>j<K. pending self c m j"
      "fetch_json (session_get_message self (message_url self c m) K) = Inl e"
      "poll self c m tr = Some (tr @ poll_events (message_url self c m) 0 (Suc K), Inl e)"
  | (terminal) K data where "K < 34" "\<forall>j<K. pending self c m j"
      "fetch_json (session_get_message self (message_url self c m) K) = Inr data"
      "terminal (py_get_or (msg_status data) '''')"
      "poll self c m tr =
         Some (tr @ poll_events (message_url self c m) 0 (Suc K)
                  @ fst (parse_response self data c m),
               Inr (snd (parse_response self data c m)))"
proof (cases "\<forall>j<34. pending self c m j")
  case True
  then show ?thesis using timeout poll_timeout by blast
next
  case False
  then have ex: "\<exists>j. j < 34 \<and> \<not> pending self c m j" by blast
  define K where "K = (LEAST j. j < 34 \<and> \<not> pending self c m j)"
  have K: "K < 34" "\<not> pending self c m K"
    using LeastI_ex [OF ex] by (simp_all add: K_def)
  have before: "\<forall>j<K. pending self c m j"
  proof (intro allI impI)
    fix j assume "j < K"
    then have "\<not> (j < 34 \<and> \<not> pending self c m j)"
      unfolding K_def by (rule not_less_Least)
    with \<open>j < K\<close> K(1) show "pending self c m j" by simp
  qed
  show ?thesis
  proof (cases "fetch_json (session_get_message self (message_url self c m) K)")
    case (Inl e)
    then show ?thesis using error [OF K(1) before] poll_error [OF K(1) before] by blast
  next
    case (Inr data)
    with K(2) have t: "terminal (py_get_or (msg_status data) '''')"
      by (simp add: pending_def)
    show ?thesis using terminal [OF K(1) before Inr t] poll_terminal [OF K(1) before Inr t] by blast
  qed
qed

lemma ask_submission:
  "ask self question conversation_id =
     (case submission self question conversation_id of
        Inl e \<Rightarrow> Some ([Post (submit_url self conversation_id)], Inl e)
      | Inr (c, m) \<Rightarrow> poll self c m [Post (submit_url self conversation_id)])"
  by (cases conversation_id)
    (auto simp: ask_def submission_def submit_url_def start_conversation_def follow_up_def
       split: sum.splits)

section \<open>Normalisation, field by field\<close>

lemma scan_text_simps [simp]:
  "text_content (scan_text att st) =
     (case text_payload att of None \<Rightarrow> text_content st
      | Some d \<Rightarrow> py_get_or (lookup d ''content'') '''')"
  "sql_content (scan_text att st) = sql_content st"
  "columns (scan_text att st) = columns st"
  "rows (scan_text att st) = rows st"
  "events (scan_text att st) = events st"
  by (auto simp: scan_text_def split: entry.splits)

lemma scan_query_simps [simp]:
  "sql_content (scan_query att st) =
     (case query_payload att of None \<Rightarrow> sql_content st
      | Some d \<Rightarrow> py_get_or (lookup d ''query'') '''')"
  "text_content (scan_query att st) = text_content st"
  "columns (scan_query att st) = columns st"
  "rows (scan_query att st) = rows st"
  "events (scan_query att st) = events st"
  by (auto simp: scan_query_def split: entry.splits)

lemma scan_result_simps [simp]:
  "text_content (scan_result self status c m i att st) = text_content st"
  "sql_content (scan_result self status c m i att st) = sql_content st"
  by (auto simp: scan_result_def Let_def split: option.splits sum.splits)

lemma scan_result_events:
  "events (scan_result self status c m i att st) =
     events st @ (case result_id att of
                    None \<Rightarrow> []
                  | Some a \<Rightarrow> if status = Some ''COMPLETED''
                             then [Get (query_result_url self c m a)] else [])"
  by (auto simp: scan_result_def Let_def split: option.splits sum.splits)

lemma scan_result_fail:
  "(case result_id att of None \<Rightarrow> True | Some a \<Rightarrow> isl (get_query_result self c m a i))
   \<Longrightarrow> columns (scan_result self status c m i att st) = columns st
     \<and> rows (scan_result self status c m i att st) = rows st"
  by (auto simp: scan_result_def Let_def split: option.splits sum.splits)

lemma scan_attachments_text:
  "text_content (scan_attachments self status c m i atts st) =
     (let ps = List.map_filter text_payload atts
      in if ps = [] then text_content st else py_get_or (lookup (last ps) ''content'') '''')"
proof (induction atts arbitrary: i st)
  case Nil
  show ?case by (simp add:)
next
  case (Cons att atts)
  show ?case
    by (cases "text_payload att")
      (simp_all add: Cons.IH scan_attachment_def Let_def del: text_payload.simps)
qed

lemma scan_attachments_sql:
  "sql_content (scan_attachments self status c m i atts st) =
     (let ps = List.map_filter query_payload atts
      in if ps = [] then sql_content st else py_get_or (lookup (last ps) ''query'') '''')"
proof (induction atts arbitrary: i st)
  case Nil
  show ?case by (simp add:)
next
  case (Cons att atts)
  show ?case
    by (cases "query_payload att")
      (simp_all add: Cons.IH scan_attachment_def Let_def del: query_payload.simps)
qed

lemma scan_attachments_events:
  "events (scan_attachments self status c m i atts st) =
     events st @ (if status = Some ''COMPLETED''
                  then map (\<lambda>a. Get (query_result_url self c m a)) (List.map_filter result_id atts)
                  else [])"
proof (induction atts arbitrary: i st)
  case Nil
  show ?case by (simp add:)
next
  case (Cons att atts)
  show ?case
    by (cases "result_id att")
      (simp_all add: Cons.IH scan_attachment_def scan_result_events
         del: result_id.simps)
qed

lemma scan_attachments_fail:
  "fetches_fail self c m i atts \<Longrightarrow>
     columns (scan_attachments self status c m i atts st) = columns st
     \<and> rows (scan_attachments self status c m i atts st) = rows st"
proof (induction atts arbitrary: i st)
  case Nil
  show ?case by simp
next
  case (Cons att atts)
  from Cons.prems have
    h: "(case result_id att of None \<Rightarrow> True | Some a \<Rightarrow> isl (get_query_result self c m a i))"
    and t: "fetches_fail self c m (Suc i) atts"
    by simp_all
  show ?case
    using Cons.IH [OF t] scan_result_fail [OF h]
    by (simp add: scan_attachment_def)
qed

lemma scan_attachments_not_completed:
  "status \<noteq> Some ''COMPLETED'' \<Longrightarrow>
     columns (scan_attachments self status c m i atts st) = columns st
     \<and> rows (scan_attachments self status c m i atts st) = rows st"
proof (induction atts arbitrary: i st)
  case Nil
  show ?case by simp
next
  case (Cons att atts)
  have "columns (scan_result self status c m i att st') = columns st'
      \<and> rows (scan_result self status c m i att st') = rows st'" for st'
    using Cons.prems by (auto simp: scan_result_def split: option.splits)
  with Cons.IH [OF Cons.prems] show ?case
    by (simp add: scan_attachment_def)
qed

lemma parse_response_fields:
  "res_status (snd (parse_response self data c m)) = py_get_or (msg_status data) ''UNKNOWN''"
  "res_text (snd (parse_response self data c m)) = gathered_text (attachments_of data)"
  "res_sql (snd (parse_response self data c m)) = gathered_query (attachments_of data)"
  "res_error (snd (parse_response self data c m)) = error_of data"
  "res_conversation_id (snd (parse_response self data c m)) = c"
  "res_message_id (snd (parse_response self data c m)) = m"
  by (simp_all add: parse_response_def Let_def scan_attachments_text scan_attachments_sql
      gathered_text_def gathered_query_def del: attachments_of.simps error_of.simps)

lemma parse_response_events:
  "fst (parse_response self data c m) =
     (if msg_status data = Val ''COMPLETED''
      then map (\<lambda>a. Get (query_result_url self c m a))
             (List.map_filter result_id (attachments_of data))
      else [])"
  by (cases "msg_status data")
    (simp_all add: parse_response_def Let_def scan_attachments_events del: attachments_of.simps)

lemma parse_response_fail:
  "fetches_fail self c m 0 (attachments_of data) \<Longrightarrow>
     res_columns (snd (parse_response self data c m)) = Some []
     \<and> res_rows (snd (parse_response self data c m)) = Some []"
  by (simp add: parse_response_def Let_def scan_attachments_fail del: attachments_of.simps)

lemma parse_response_not_completed:
  "msg_status data \<noteq> Val ''COMPLETED'' \<Longrightarrow>
     res_columns (snd (parse_response self data c m)) = Some []
     \<and> res_rows (snd (parse_response self data c m)) = Some []"
  by (cases "msg_status data")
    (simp_all add: parse_response_def Let_def scan_attachments_not_completed
       del: attachments_of.simps)

lemma ask_terminal:
  assumes "submission self question conversation_id = Inr (c, m)"
    and "answers self c m K data"
  shows "ask self question conversation_id =
           Some (Post (submit_url self conversation_id)
                   # poll_events (message_url self c m) 0 (Suc K)
                   @ fst (parse_response self data c m),
                 Inr (snd (parse_response self data c m)))"
  using assms(2) poll_terminal [of K self c m data "[Post (submit_url self conversation_id)]"]
  by (simp add: ask_submission assms(1) answers_def)

lemma ask_timeout:
  assumes "submission self question conversation_id = Inr (c, m)"
    and "\<forall>j<34. pending self c m j"
  shows "ask self question conversation_id =
           Some (Post (submit_url self conversation_id) # poll_events (message_url self c m) 0 34,
                 Inr (timeout_result c m))"
  by (simp add: ask_submission assms(1) poll_timeout [OF assms(2)])

lemma ask_poll_error:
  assumes "submission self question conversation_id = Inr (c, m)"
    and "K < 34" and "\<forall>j<K. pending self c m j"
    and "fetch_json (session_get_message self (message_url self c m) K) = Inl e"
  shows "ask self question conversation_id =
           Some (Post (submit_url self conversation_id)
                   # poll_events (message_url self c m) 0 (Suc K), Inl e)"
  by (simp add: ask_submission assms(1) poll_error [OF assms(2,3,4)])

lemma ask_submit_error:
  assumes "submission self question conversation_id = Inl e"
  shows "ask self question conversation_id = Some ([Post (submit_url self conversation_id)], Inl e)"
  by (simp add: ask_submission assms)

lemma sleeps_append [simp]: "sleeps (xs @ ys) = sleeps xs @ sleeps ys"
  by (induction xs rule: sleeps.induct) simp_all

lemma gets_append [simp]: "gets (xs @ ys) = gets xs @ gets ys"
  by (induction xs rule: gets.induct) simp_all

lemma posts_append [simp]: "posts (xs @ ys) = posts xs @ posts ys"
  by (induction xs rule: posts.induct) simp_all

lemma sleeps_poll_events: "sleeps (poll_events url 0 n) = map interval_at [0..<n]"
  by (induction n) (simp_all add: poll_events_def)

lemma posts_poll_events: "posts (poll_events url 0 n) = []"
  by (induction n) (simp_all add: poll_events_def)

lemma gets_poll_events: "gets (poll_events url 0 n) = replicate n url"
  by (induction n) (simp_all add: poll_events_def replicate_append_same)

lemma sleeps_map_Get [simp]: "sleeps (map (\<lambda>a. Get (f a)) xs) = []"
  by (induction xs) simp_all

lemma posts_map_Get [simp]: "posts (map (\<lambda>a. Get (f a)) xs) = []"
  by (induction xs) simp_all

lemma gets_map_Get [simp]: "gets (map (\<lambda>a. Get (f a)) xs) = map f xs"
  by (induction xs) simp_all

lemma sum_interval_at: "sum_list (map interval_at [0..<n]) = elapsed_at n"
  by (induction n) simp_all

lemma interval_at_closed: "interval_at k = min ((3 / 2) ^ k) 10"
proof (induction k)
  case 0
  show ?case by simp
next
  case (Suc k)
  have "min (min ((3 / 2) ^ k) 10 * (3 / 2)) 10 = min ((3 / 2) ^ Suc k) (10 :: rat)"
    by (simp add: min_def)
  with Suc show ?case by simp
qed

section \<open>The concrete services, evaluated\<close>

lemma submission_started:
  "submission (client_with (ok started) g r) question None = Inr (Some ''c1'', Some ''m1'')"
  by (simp add: submission_def submit_url_def client_with_def ok_def started_def lookup_def
      py_or_def)

lemma submission_down:
  "submission (client_with (Reply 503 None) g r) question None = Inl (HTTPError 503)"
  by (simp add: submission_def submit_url_def client_with_def)

lemma submission_followed:
  "submission client_followed question (Some ''c1'') = Inr (Some ''c1'', Some ''m2'')"
  by (simp add: submission_def submit_url_def client_followed_def client_with_def ok_def
      lookup_def)

lemma pending_running: "g k = ok running \<Longrightarrow> pending (client_with p g r) c m k"
  by (simp add: pending_def client_with_def ok_def running_def terminal_def)

lemma answers_first:
  "g 0 = ok data \<Longrightarrow> terminal (py_get_or (msg_status data) '''')
     \<Longrightarrow> answers (client_with p g r) c m 0 data"
  by (simp add: answers_def client_with_def ok_def)

lemma answers_done:
  "answers client_done c m 1 (completed [text_att ''42'', query_att ''SELECT 1''])"
  unfolding client_done_def answers_def
  by (simp add: pending_running) (simp add: client_with_def ok_def completed_def terminal_def)

lemma pending_client_pending: "\<forall>j<34. pending client_pending c m j"
  by (simp add: client_pending_def pending_running)

lemma terminal_completed: "terminal (py_get_or (msg_status (completed atts)) '''')"
  by (simp add: completed_def terminal_def)

lemma submission_clients:
  "submission client_done question None = Inr (Some ''c1'', Some ''m1'')"
  "submission client_pending question None = Inr (Some ''c1'', Some ''m1'')"
  "submission client_failed question None = Inr (Some ''c1'', Some ''m1'')"
  "submission client_table_down question None = Inr (Some ''c1'', Some ''m1'')"
  "submission client_tables question None = Inr (Some ''c1'', Some ''m1'')"
  "submission client_poll_down question None = Inr (Some ''c1'', Some ''m1'')"
  "submission client_submit_down question None = Inl (HTTPError 503)"
  by (simp_all add: client_done_def client_pending_def client_failed_def client_table_down_def
      client_tables_def client_poll_down_def client_submit_down_def submission_started
      submission_down)

lemma parse_eval:
  "completed atts = \<lparr>msg_status = Val ''COMPLETED'', msg_error = Missing, msg_attachments = Val atts\<rparr>"
  "text_att t =
     \<lparr>att_text = Val [(''content'', Some t)], att_query = Missing, att_attachment_id = Missing\<rparr>"
  "query_att s =
     \<lparr>att_text = Missing, att_query = Val [(''query'', Some s)], att_attachment_id = Missing\<rparr>"
  "table_att a = \<lparr>att_text = Missing, att_query = Missing, att_attachment_id = Val a\<rparr>"
  by (simp_all add: completed_def text_att_def query_att_def table_att_def)

lemmas scan_eval = parse_response_def scan_attachment_def scan_text_def scan_query_def
  scan_result_def get_query_result_def lookup_def

lemma returned_client_done:
  "returned (ask client_done ''q'' None) =
     Some \<lparr>res_status = Some ''COMPLETED'', res_text = Some ''42'', res_sql = Some ''SELECT 1'',
           res_columns = Some [], res_rows = Some [], res_error = None,
           res_conversation_id = Some ''c1'', res_message_id = Some ''m1''\<rparr>"
  by (simp add: ask_terminal [OF submission_clients(1) answers_done] parse_eval scan_eval)

lemma answers_clients:
  "answers client_failed c m 0
     \<lparr>msg_status = Val ''FAILED'', msg_error = Val ''boom'',
      msg_attachments = Val [text_att ''partial'']\<rparr>"
  "answers client_table_down c m 0
     (completed [\<lparr>att_text = Val [(''content'', Some ''42'')],
                  att_query = Val [(''query'', Some ''SELECT 1'')],
                  att_attachment_id = Val ''a''\<rparr>])"
  "answers client_tables c m 0 (completed [table_att ''a'', table_att ''b''])"
  "answers client_followed c m 0 (completed [text_att ''still 42''])"
  unfolding client_failed_def client_table_down_def client_tables_def client_followed_def
  by (rule answers_first, simp, simp add: terminal_def)
    (rule answers_first, simp, rule terminal_completed)+

lemma returned_client_failed:
  "returned (ask client_failed ''q'' None) =
     Some \<lparr>res_status = Some ''FAILED'', res_text = Some ''partial'', res_sql = None,
           res_columns = Some [], res_rows = Some [], res_error = Some ''boom'',
           res_conversation_id = Some ''c1'', res_message_id = Some ''m1''\<rparr>"
  by (simp add: ask_terminal [OF submission_clients(3) answers_clients(1)] parse_eval scan_eval)

lemma returned_client_table_down:
  "returned (ask client_table_down ''q'' None) =
     Some \<lparr>res_status = Some ''COMPLETED'', res_text = Some ''42'', res_sql = Some ''SELECT 1'',
           res_columns = Some [], res_rows = Some [], res_error = None,
           res_conversation_id = Some ''c1'', res_message_id = Some ''m1''\<rparr>"
  by (subst ask_terminal [OF submission_clients(4) answers_clients(2)])
    (simp add: parse_eval scan_eval client_table_down_def client_with_def)

lemma returned_client_tables:
  "returned (ask client_tables ''q'' None) =
     Some \<lparr>res_status = Some ''COMPLETED'', res_text = None, res_sql = None,
           res_columns = Some [''n''], res_rows = Some [[''1'']], res_error = None,
           res_conversation_id = Some ''c1'', res_message_id = Some ''m1''\<rparr>"
  by (subst ask_terminal [OF submission_clients(5) answers_clients(3)])
    (simp add: parse_eval scan_eval client_tables_def client_with_def ok_def)

lemma returned_client_followed:
  "returned (ask client_followed ''q'' (Some ''c1'')) =
     Some \<lparr>res_status = Some ''COMPLETED'', res_text = Some ''still 42'', res_sql = None,
           res_columns = Some [], res_rows = Some [], res_error = None,
           res_conversation_id = Some ''c1'', res_message_id = Some ''m2''\<rparr>"
  by (simp add: ask_terminal [OF submission_followed answers_clients(4)] parse_eval scan_eval)

lemma returned_client_pending:
  "returned (ask client_pending ''q'' None) = Some (timeout_result (Some ''c1'') (Some ''m1''))"
  by (simp add: ask_timeout [OF submission_clients(2) pending_client_pending])

lemma raised_client_submit_down:
  "raised (ask client_submit_down ''q'' None) = Some (HTTPError 503)"
  by (simp add: ask_submit_error [OF submission_clients(7)])

lemma raised_client_poll_down:
  "raised (ask client_poll_down ''q'' None) = Some (HTTPError 503)"
proof -
  have "fetch_json (session_get_message client_poll_down
          (message_url client_poll_down (Some ''c1'') (Some ''m1'')) 0) = Inl (HTTPError 503)"
    by (simp add: client_poll_down_def client_with_def)
  from ask_poll_error [OF submission_clients(6) _ _ this, of "''q''"] show ?thesis by simp
qed

section \<open>The trace of a call\<close>

lemma interval_at_tail: "6 \<le> a \<Longrightarrow> map interval_at [a..<b] = replicate (b - a) 10"
proof -
  assume "6 \<le> a"
  then have "map interval_at [a..<b] = map (\<lambda>k. 10) [a..<b]"
    by (intro map_cong refl) (simp add: interval_at_late)
  then show ?thesis by (simp add: map_replicate_const)
qed

lemma interval_at_head: "map interval_at [0..<6] = [1, 3 / 2, 9 / 4, 27 / 8, 81 / 16, 243 / 32]"
  by (simp add: upt_rec eval_nat_numeral)

lemma interval_at_prefix:
  "map interval_at [0..<34] = [1, 3 / 2, 9 / 4, 27 / 8, 81 / 16, 243 / 32] @ replicate 28 10"
proof -
  have "map interval_at [0..<6 + 28] = map interval_at [0..<6] @ map interval_at [6..<6 + 28]"
    by (simp only: upt_add_eq_append [OF le0] map_append)
  also have "map interval_at [6..<6 + 28] = replicate 28 10"
    using interval_at_tail [of 6 "6 + 28"] by (simp only: diff_add_inverse le_refl)
  finally show ?thesis by (simp only: interval_at_head) simp
qed

lemma interval_at_take:
  "n \<le> 34 \<Longrightarrow> map interval_at [0..<n]
     = take n ([1, 3 / 2, 9 / 4, 27 / 8, 81 / 16, 243 / 32] @ replicate 28 10)"
proof -
  assume "n \<le> 34"
  then have "map interval_at [0..<n] = take n (map interval_at [0..<34])"
    by (simp add: take_map take_upt)
  then show ?thesis by (simp only: interval_at_prefix)
qed

text \<open>The trace of every run of the poll loop.\<close>

lemma poll_trace:
  "\<exists>tr out n tr'. poll self c m tr0 = Some (tr, out) \<and> 1 \<le> n \<and> n \<le> 34
     \<and> tr = tr0 @ poll_events (message_url self c m) 0 n @ tr' \<and> sleeps tr' = []
     \<and> posts tr' = []"
proof (cases rule: poll_cases [of self c m tr0])
  case timeout
  then show ?thesis
    by (intro exI [of _ "tr0 @ poll_events (message_url self c m) 0 34"] exI [of _ "34::nat"]
        exI [of _ "[]"] exI [of _ "Inr (timeout_result c m)"]) simp
next
  case (error K e)
  then show ?thesis
    by (intro exI [of _ "tr0 @ poll_events (message_url self c m) 0 (Suc K)"] exI [of _ "Suc K"]
        exI [of _ "[]"] exI [of _ "Inl e"]) simp
next
  case (terminal K data)
  then show ?thesis
    by (intro exI [of _ "tr0 @ poll_events (message_url self c m) 0 (Suc K)
            @ fst (parse_response self data c m)"] exI [of _ "Suc K"]
        exI [of _ "fst (parse_response self data c m)"]
        exI [of _ "Inr (snd (parse_response self data c m))"])
      (simp add: parse_response_events)
qed

lemma ask_trace:
  "\<exists>tr out n. ask self question conversation_id = Some (tr, out) \<and> n \<le> 34
     \<and> sleeps tr = map interval_at [0..<n]"
proof (cases "submission self question conversation_id")
  case (Inl e)
  then show ?thesis
    by (intro exI [of _ "[Post (submit_url self conversation_id)]"] exI [of _ "Inl e"]
        exI [of _ "0::nat"]) (simp add: ask_submission)
next
  case (Inr cm)
  obtain c m where cm: "cm = (c, m)" by (cases cm)
  from poll_trace [of self c m "[Post (submit_url self conversation_id)]"]
  obtain tr out n tr' where "poll self c m [Post (submit_url self conversation_id)] = Some (tr, out)"
    and "n \<le> 34"
    and "tr = [Post (submit_url self conversation_id)] @ poll_events (message_url self c m) 0 n @ tr'"
    and "sleeps tr' = []"
    by blast
  then show ?thesis
    by (intro exI [of _ tr] exI [of _ out] exI [of _ n])
      (simp add: ask_submission Inr cm sleeps_poll_events)
qed

section \<open>What the scan gathers and what the spec names\<close>

lemma map_filter_append:
  "List.map_filter f (xs @ ys) = List.map_filter f xs @ List.map_filter f ys"
  by (simp add: List.map_filter_def)

lemma gathered_text_pair:
  "only_text a t \<Longrightarrow> only_query b s \<Longrightarrow>
     gathered_text [a, b] = Some t \<and> gathered_text [b, a] = Some t"
  by (auto simp: gathered_text_def only_text_def only_query_def Let_def
      simp del: text_payload.simps query_payload.simps split: option.splits)

lemma gathered_query_pair:
  "only_text a t \<Longrightarrow> only_query b s \<Longrightarrow>
     gathered_query [a, b] = Some s \<and> gathered_query [b, a] = Some s"
  by (auto simp: gathered_query_def only_text_def only_query_def Let_def
      simp del: text_payload.simps query_payload.simps split: option.splits)

lemma text_of_payload:
  "text_of att = (case text_payload att of
                    None \<Rightarrow> None
                  | Some d \<Rightarrow> (case lookup d ''content'' of
                                Val t \<Rightarrow> if t \<noteq> [] then Some t else None
                              | _ \<Rightarrow> None))"
  by (auto simp: lookup_def split: entry.splits option.splits)

lemma query_of_payload:
  "query_of att = (case query_payload att of
                    None \<Rightarrow> None
                  | Some d \<Rightarrow> (case lookup d ''query'' of
                                Val s \<Rightarrow> if s \<noteq> [] then Some s else None
                              | _ \<Rightarrow> None))"
  by (auto simp: lookup_def split: entry.splits option.splits)

lemma gathered_text_nonempty:
  "gathered_text atts = Some t \<Longrightarrow> t \<noteq> [] \<Longrightarrow> last_text atts = Some t"
proof (induction atts rule: rev_induct)
  case Nil
  then show ?case by (simp add: gathered_text_def)
next
  case (snoc att atts)
  show ?case
  proof (cases "text_payload att")
    case None
    then have "text_of att = None" by (simp add: text_of_payload del: text_of.simps text_payload.simps)
    with None snoc show ?thesis
      by (simp add: gathered_text_def last_text_def map_filter_append
          del: text_of.simps text_payload.simps)
  next
    case (Some d)
    with snoc.prems have "py_get_or (lookup d ''content'') '''' = Some t"
      by (simp add: gathered_text_def map_filter_append del: text_payload.simps)
    with snoc.prems(2) have "lookup d ''content'' = Val t"
      by (cases "lookup d ''content''") simp_all
    with Some snoc.prems(2) have "text_of att = Some t"
      by (simp add: text_of_payload del: text_of.simps text_payload.simps)
    then show ?thesis
      by (simp add: last_text_def map_filter_append del: text_of.simps)
  qed
qed

lemma gathered_query_nonempty:
  "gathered_query atts = Some s \<Longrightarrow> s \<noteq> [] \<Longrightarrow> last_query atts = Some s"
proof (induction atts rule: rev_induct)
  case Nil
  then show ?case by (simp add: gathered_query_def)
next
  case (snoc att atts)
  show ?case
  proof (cases "query_payload att")
    case None
    then have "query_of att = None"
      by (simp add: query_of_payload del: query_of.simps query_payload.simps)
    with None snoc show ?thesis
      by (simp add: gathered_query_def last_query_def map_filter_append
          del: query_of.simps query_payload.simps)
  next
    case (Some d)
    with snoc.prems have "py_get_or (lookup d ''query'') '''' = Some s"
      by (simp add: gathered_query_def map_filter_append del: query_payload.simps)
    with snoc.prems(2) have "lookup d ''query'' = Val s"
      by (cases "lookup d ''query''") simp_all
    with Some snoc.prems(2) have "query_of att = Some s"
      by (simp add: query_of_payload del: query_of.simps query_payload.simps)
    then show ?thesis
      by (simp add: last_query_def map_filter_append del: query_of.simps)
  qed
qed

lemma answers_overwritten:
  "answers client_overwritten c m 0 (completed [text_att ''42'', text_att ''''])"
  unfolding client_overwritten_def by (rule answers_first, simp, rule terminal_completed)

lemma submission_overwritten:
  "submission client_overwritten question None = Inr (Some ''c1'', Some ''m1'')"
  by (simp add: client_overwritten_def submission_started)

lemma returned_client_overwritten:
  "returned (ask client_overwritten ''q'' None) =
     Some \<lparr>res_status = Some ''COMPLETED'', res_text = Some '''', res_sql = None,
           res_columns = Some [], res_rows = Some [], res_error = None,
           res_conversation_id = Some ''c1'', res_message_id = Some ''m1''\<rparr>"
  by (simp add: ask_terminal [OF submission_overwritten answers_overwritten] parse_eval scan_eval)

lemma gathered_text_filled: "texts_filled atts \<Longrightarrow> gathered_text atts = last_text atts"
proof (induction atts rule: rev_induct)
  case Nil
  show ?case by (simp add: gathered_text_def last_text_def)
next
  case (snoc att atts)
  from snoc.prems have rest: "texts_filled atts"
    and att: "case text_payload att of None \<Rightarrow> True | Some d \<Rightarrow> text_of att \<noteq> None"
    by (simp_all add: texts_filled_def del: text_of.simps text_payload.simps)
  show ?case
  proof (cases "text_payload att")
    case None
    then have "text_of att = None"
      by (simp add: text_of_payload del: text_of.simps text_payload.simps)
    with None snoc.IH [OF rest] show ?thesis
      by (simp add: gathered_text_def last_text_def map_filter_append
          del: text_of.simps text_payload.simps)
  next
    case (Some d)
    with att obtain t where t: "text_of att = Some t" by auto
    with Some have "lookup d ''content'' = Val t"
      by (auto simp: text_of_payload simp del: text_of.simps text_payload.simps
          split: entry.splits if_splits)
    with Some t show ?thesis
      by (simp add: gathered_text_def last_text_def map_filter_append
          del: text_of.simps text_payload.simps)
  qed
qed

lemma gathered_query_filled: "queries_filled atts \<Longrightarrow> gathered_query atts = last_query atts"
proof (induction atts rule: rev_induct)
  case Nil
  show ?case by (simp add: gathered_query_def last_query_def)
next
  case (snoc att atts)
  from snoc.prems have rest: "queries_filled atts"
    and att: "case query_payload att of None \<Rightarrow> True | Some d \<Rightarrow> query_of att \<noteq> None"
    by (simp_all add: queries_filled_def del: query_of.simps query_payload.simps)
  show ?case
  proof (cases "query_payload att")
    case None
    then have "query_of att = None"
      by (simp add: query_of_payload del: query_of.simps query_payload.simps)
    with None snoc.IH [OF rest] show ?thesis
      by (simp add: gathered_query_def last_query_def map_filter_append
          del: query_of.simps query_payload.simps)
  next
    case (Some d)
    with att obtain s where s: "query_of att = Some s" by auto
    with Some have "lookup d ''query'' = Val s"
      by (auto simp: query_of_payload simp del: query_of.simps query_payload.simps
          split: entry.splits if_splits)
    with Some s show ?thesis
      by (simp add: gathered_query_def last_query_def map_filter_append
          del: query_of.simps query_payload.simps)
  qed
qed

section \<open>The number of iterations\<close>

lemma split_upt: "K < N \<Longrightarrow> [0..<N] = [0..<K] @ K # [Suc K..<N]"
proof -
  assume a: "K < N"
  have "[0..<N] = take K [0..<N] @ drop K [0..<N]" by (simp only: append_take_drop_id)
  also have "take K [0..<N] = [0..<K]" using a by simp
  also have "drop K [0..<N] = [K..<N]" by simp
  also have "[K..<N] = K # [Suc K..<N]" using a by (rule upt_conv_Cons)
  finally show ?thesis .
qed

lemma takeWhile_upt_stop:
  assumes "K < N" and "\<forall>j<K. P j" and "\<not> P K"
  shows "takeWhile P [0..<N] = [0..<K]"
proof -
  have "takeWhile P ([0..<K] @ K # [Suc K..<N]) = [0..<K] @ takeWhile P (K # [Suc K..<N])"
    by (rule takeWhile_append2) (use assms(2) in simp)
  also have "\<dots> = [0..<K]" using assms(3) by simp
  finally show ?thesis by (simp only: split_upt [OF assms(1), symmetric])
qed

lemma takeWhile_upt_all: "\<forall>j<N. P j \<Longrightarrow> takeWhile P [0..<N] = [0..<N]"
  by (simp add: takeWhile_eq_all_conv)

lemma polls_all:
  assumes "\<forall>j<34. pending self c m j"
  shows "polls self c m = 34"
proof -
  have "takeWhile (pending self c m) [0..<34] = [0..<34]"
    using assms by (rule takeWhile_upt_all)
  then show ?thesis unfolding polls_def by (simp only: length_upt; simp)
qed

lemma polls_stop:
  assumes "K < 34" and "\<forall>j<K. pending self c m j" and "\<not> pending self c m K"
  shows "polls self c m = Suc K"
proof -
  have "takeWhile (pending self c m) [0..<34] = [0..<K]"
    using assms by (rule takeWhile_upt_stop)
  then show ?thesis unfolding polls_def using assms(1) by (simp only: length_upt; simp)
qed

lemma polls_range: "1 \<le> polls self c m \<and> polls self c m \<le> 34"
  by (simp add: polls_def)

lemma polls_pending:
  assumes "K < 34" and "\<forall>j<K. pending self c m j"
  shows "K < polls self c m"
proof (cases "\<forall>j<34. pending self c m j")
  case True
  then show ?thesis using assms(1) by (simp add: polls_all)
next
  case False
  then have ex: "\<exists>j. j < 34 \<and> \<not> pending self c m j" by blast
  define L where "L = (LEAST j. j < 34 \<and> \<not> pending self c m j)"
  have L: "L < 34" "\<not> pending self c m L"
    using LeastI_ex [OF ex] by (simp_all add: L_def)
  have before: "\<forall>j<L. pending self c m j"
  proof (intro allI impI)
    fix j assume "j < L"
    then have "\<not> (j < 34 \<and> \<not> pending self c m j)"
      unfolding L_def by (rule not_less_Least)
    with \<open>j < L\<close> L(1) show "pending self c m j" by simp
  qed
  from assms(2) L(2) have "K \<le> L" by (meson not_le_imp_less)
  then show ?thesis by (simp add: polls_stop [OF L(1) before L(2)])
qed

lemma poll_trace_polls:
  "\<exists>tr out tr'. poll self c m tr0 = Some (tr, out)
     \<and> tr = tr0 @ poll_events (message_url self c m) 0 (polls self c m) @ tr'
     \<and> sleeps tr' = [] \<and> posts tr' = []"
proof (cases rule: poll_cases [of self c m tr0])
  case timeout
  have n: "polls self c m = 34" using timeout(1) by (rule polls_all)
  show ?thesis
    unfolding n
    by (rule exI [of _ "tr0 @ poll_events (message_url self c m) 0 34"],
        rule exI [of _ "Inr (timeout_result c m)"], rule exI [of _ "[]"])
      (simp add: timeout(2))
next
  case (error K e)
  have "\<not> pending self c m K" by (simp add: pending_def error(3))
  with error(1,2) have n: "polls self c m = Suc K" by (rule polls_stop)
  show ?thesis
    unfolding n
    by (rule exI [of _ "tr0 @ poll_events (message_url self c m) 0 (Suc K)"],
        rule exI [of _ "Inl e"], rule exI [of _ "[]"])
      (simp add: error(4))
next
  case (terminal K data)
  have "\<not> pending self c m K" by (simp add: pending_def terminal(3,4))
  with terminal(1,2) have n: "polls self c m = Suc K" by (rule polls_stop)
  show ?thesis
    unfolding n
    by (rule exI [of _ "tr0 @ poll_events (message_url self c m) 0 (Suc K)
            @ fst (parse_response self data c m)"],
        rule exI [of _ "Inr (snd (parse_response self data c m))"],
        rule exI [of _ "fst (parse_response self data c m)"])
      (simp add: terminal(5) parse_response_events)
qed

lemma polls_client_done: "polls client_done c m = 2"
proof -
  have "\<not> pending client_done c m 1"
    by (simp add: pending_def client_done_def client_with_def ok_def completed_def terminal_def)
  moreover have "\<forall>j<1. pending client_done c m j"
    by (simp add: client_done_def pending_running)
  ultimately show ?thesis using polls_stop [of 1 client_done c m] by simp
qed

lemma raised_client_unreachable:
  "raised (ask client_unreachable ''q'' None) = Some ConnectionError"
proof -
  have "submission client_unreachable ''q'' None = Inl ConnectionError"
    by (simp add: submission_def client_unreachable_def client_with_def)
  then show ?thesis by (simp add: ask_submit_error)
qed

lemma raised_client_poll_unreachable:
  "raised (ask client_poll_unreachable ''q'' None) = Some ConnectionError"
proof -
  have s: "submission client_poll_unreachable ''q'' None = Inr (Some ''c1'', Some ''m1'')"
    by (simp add: client_poll_unreachable_def submission_started)
  have "fetch_json (session_get_message client_poll_unreachable
          (message_url client_poll_unreachable (Some ''c1'') (Some ''m1'')) 0) = Inl ConnectionError"
    by (simp add: client_poll_unreachable_def client_with_def)
  from ask_poll_error [OF s _ _ this] show ?thesis by simp
qed

section \<open>The claims\<close>

lemma returnedE:
  assumes "returned x = Some r"
  obtains tr where "x = Some (tr, Inr r)"
  using assms by (cases x rule: returned.cases) simp_all

lemma terminal_status:
  "terminal (py_get_or e '''') \<Longrightarrow>
     py_get_or e ''UNKNOWN'' = py_get_or e '''' \<and> e = Val (the (py_get_or e ''''))"
  by (cases e) (simp_all add: terminal_def)

text \<open>
  C5, as stated, fails in the kind of the error: the source defines no SubmissionError.
  When the transport raises on the POST, \<open>ask\<close> raises the transport's ConnectionError,
  which is also what it raises when the transport fails on a GET of the poll loop.
\<close>

theorem ask_submission_error_counterexample:
  "submission client_unreachable ''q'' None = Inl ConnectionError
   \<and> raised (ask client_unreachable ''q'' None) = Some ConnectionError
   \<and> submission client_poll_unreachable ''q'' None = Inr (Some ''c1'', Some ''m1'')
   \<and> raised (ask client_poll_unreachable ''q'' None) = Some ConnectionError"
proof -
  have "submission client_unreachable ''q'' None = Inl ConnectionError"
    by (simp add: submission_def client_unreachable_def client_with_def)
  moreover have "submission client_poll_unreachable ''q'' None = Inr (Some ''c1'', Some ''m1'')"
    by (simp add: client_poll_unreachable_def submission_started)
  ultimately show ?thesis
    using raised_client_unreachable raised_client_poll_unreachable by simp
qed

text \<open>
  C5, amended. When the POST that submits the question fails (the transport raises, the
  service answers 4xx or 5xx, or the body is not JSON), \<open>ask\<close> raises that error itself,
  at once: the trace holds the one POST and nothing else, so no retry, no sleep and no GET;
  and no result is returned, so no continuation token either. This holds for a new
  conversation and for a follow-up.
\<close>

theorem ask_submission_failure:
  assumes "fetch_json (session_post self (submit_url self conversation_id) question) = Inl e"
  shows "ask self question conversation_id = Some ([Post (submit_url self conversation_id)], Inl e)
       \<and> raised (ask self question conversation_id) = Some e
       \<and> returned (ask self question conversation_id) = None"
proof -
  from assms have "submission self question conversation_id = Inl e"
    by (simp add: submission_def)
  then show ?thesis by (simp add: ask_submission)
qed

theorem ask_submission_failure_witness:
  "fetch_json (session_post client_submit_down (submit_url client_submit_down None) ''q'')
     = Inl (HTTPError 503)
   \<and> ask client_submit_down ''q'' None
       = Some ([Post ''https://h/api/2.0/genie/spaces/s/start-conversation''], Inl (HTTPError 503))
   \<and> returned (ask client_submit_down ''q'' None) = None"
proof -
  have h: "fetch_json (session_post client_submit_down (submit_url client_submit_down None) ''q'')
     = Inl (HTTPError 503)"
    by (simp add: client_submit_down_def client_with_def)
  from ask_submission_failure [OF h] h show ?thesis
    by (simp add: submit_url_def start_url_def spaces_url_def client_submit_down_def
        client_with_def)
qed

text \<open>
  C9. Every result that \<open>ask\<close> returns has the status COMPLETED, FAILED, CANCELLED or
  TIMEOUT: the poll loop hands a message to \<open>_parse_response\<close> only when its status is
  one of the first three, and \<open>_parse_response\<close> reads the same key of the same message.
\<close>

theorem ask_status_range:
  assumes "ask self question conversation_id = Some (tr, Inr r)"
  shows "res_status r = Some ''COMPLETED'' \<or> res_status r = Some ''FAILED''
       \<or> res_status r = Some ''CANCELLED'' \<or> res_status r = Some ''TIMEOUT''"
proof (cases "submission self question conversation_id")
  case (Inl e)
  with assms show ?thesis by (simp add: ask_submission)
next
  case (Inr cm)
  obtain c m where cm: "cm = (c, m)" by (cases cm)
  from assms Inr cm have p: "poll self c m [Post (submit_url self conversation_id)] = Some (tr, Inr r)"
    by (simp add: ask_submission)
  show ?thesis
  proof (cases rule: poll_cases [of self c m "[Post (submit_url self conversation_id)]"])
    case timeout
    with p show ?thesis by (auto simp: timeout_result_def)
  next
    case (error K e)
    with p show ?thesis by simp
  next
    case (terminal K data)
    from terminal(5) p have r: "r = snd (parse_response self data c m)" by simp
    from terminal_status [OF terminal(4)] terminal(4) show ?thesis
      unfolding r parse_response_fields terminal_def by metis
  qed
qed

theorem ask_status_range_witness:
  "returned (ask client_failed ''q'' None) =
     Some \<lparr>res_status = Some ''FAILED'', res_text = Some ''partial'', res_sql = None,
           res_columns = Some [], res_rows = Some [], res_error = Some ''boom'',
           res_conversation_id = Some ''c1'', res_message_id = Some ''m1''\<rparr>
   \<and> (Some ''FAILED'' = Some ''COMPLETED'' \<or> Some ''FAILED'' = Some ''FAILED''
      \<or> Some ''FAILED'' = Some ''CANCELLED'' \<or> Some ''FAILED'' = Some ''TIMEOUT'')"
proof -
  obtain tr r where a: "ask client_failed ''q'' None = Some (tr, Inr r)"
    using returned_client_failed by (elim returnedE)
  then have "res_status r = Some ''FAILED''" using returned_client_failed by simp
  with ask_status_range [OF a] returned_client_failed show ?thesis by simp
qed

text \<open>
  C1, as stated, fails in its general part: the code tests whether the text payload is an
  object with a key, not whether the text in it is empty. Here the message carries the text
  42 and then a text payload whose text is empty: the last non-empty text is 42, and the
  result's text is the empty string.
\<close>

theorem ask_last_text_counterexample:
  "answers client_overwritten (Some ''c1'') (Some ''m1'') 0
     (completed [text_att ''42'', text_att ''''])
   \<and> last_text (attachments_of (completed [text_att ''42'', text_att ''''])) = Some ''42''
   \<and> map_option res_text (returned (ask client_overwritten ''q'' None)) = Some (Some '''')"
proof -
  have "last_text (attachments_of (completed [text_att ''42'', text_att ''''])) = Some ''42''"
    by (simp add: last_text_def completed_def text_att_def lookup_def)
  with answers_overwritten returned_client_overwritten show ?thesis by simp
qed

text \<open>
  C1, amended. When the poll loop ends on a terminal message, and the attachments are two,
  in either order, one with only a text payload of text \<open>t\<close> and one with only a
  generated-query payload of query \<open>s\<close>, the result that \<open>ask\<close> returns carries both
  \<open>t\<close> and \<open>s\<close>. In general the result's text is the text of the last attachment, in the
  order supplied, whose text payload is an object with a key, be that text empty or unset,
  and the result's query is the query of the last attachment whose query payload is such an
  object. So whenever the result's text is non-empty it is the last non-empty text seen,
  and when every text payload carries a non-empty text the result's text is the last
  non-empty text seen (\<open>None\<close> when there is none); likewise for the query.
\<close>

theorem ask_merges_attachments:
  assumes "submission self question conversation_id = Inr (c, m)"
    and "answers self c m K data"
  shows "\<exists>tr r. ask self question conversation_id = Some (tr, Inr r)
       \<and> res_text r = gathered_text (attachments_of data)
       \<and> res_sql r = gathered_query (attachments_of data)
       \<and> (\<forall>t. res_text r = Some t \<and> t \<noteq> [] \<longrightarrow> last_text (attachments_of data) = Some t)
       \<and> (\<forall>s. res_sql r = Some s \<and> s \<noteq> [] \<longrightarrow> last_query (attachments_of data) = Some s)
       \<and> (texts_filled (attachments_of data) \<longrightarrow> res_text r = last_text (attachments_of data))
       \<and> (queries_filled (attachments_of data)
            \<longrightarrow> res_sql r = last_query (attachments_of data))
       \<and> (\<forall>a b t s. only_text a t \<and> only_query b s
             \<and> (attachments_of data = [a, b] \<or> attachments_of data = [b, a])
           \<longrightarrow> res_text r = Some t \<and> res_sql r = Some s)"
proof -
  let ?r = "snd (parse_response self data c m)"
  let ?atts = "attachments_of data"
  have rt: "res_text ?r = gathered_text ?atts" and rq: "res_sql ?r = gathered_query ?atts"
    by (rule parse_response_fields)+
  have pair: "res_text ?r = Some t \<and> res_sql ?r = Some s"
    if "only_text a t" "only_query b s" "?atts = [a, b] \<or> ?atts = [b, a]" for a b t s
    using gathered_text_pair [OF that(1,2)] gathered_query_pair [OF that(1,2)] that(3)
    unfolding rt rq by auto
  have nt: "last_text ?atts = Some t" if "res_text ?r = Some t \<and> t \<noteq> []" for t
    using that gathered_text_nonempty [of ?atts t] unfolding rt by blast
  have nq: "last_query ?atts = Some s" if "res_sql ?r = Some s \<and> s \<noteq> []" for s
    using that gathered_query_nonempty [of ?atts s] unfolding rq by blast
  have ft: "res_text ?r = last_text ?atts" if "texts_filled ?atts"
    unfolding rt using that by (rule gathered_text_filled)
  have fq: "res_sql ?r = last_query ?atts" if "queries_filled ?atts"
    unfolding rq using that by (rule gathered_query_filled)
  have "ask self question conversation_id =
          Some (Post (submit_url self conversation_id)
                  # poll_events (message_url self c m) 0 (Suc K)
                  @ fst (parse_response self data c m), Inr ?r)"
    by (rule ask_terminal [OF assms])
  then show ?thesis using rt rq pair nt nq ft fq by blast
qed

theorem ask_merges_attachments_witness:
  "submission client_done ''q'' None = Inr (Some ''c1'', Some ''m1'')
   \<and> answers client_done (Some ''c1'') (Some ''m1'') 1
       (completed [text_att ''42'', query_att ''SELECT 1''])
   \<and> only_text (text_att ''42'') ''42'' \<and> only_query (query_att ''SELECT 1'') ''SELECT 1''
   \<and> texts_filled [text_att ''42'', query_att ''SELECT 1'']
   \<and> last_text [text_att ''42'', query_att ''SELECT 1''] = Some ''42''
   \<and> map_option res_text (returned (ask client_done ''q'' None)) = Some (Some ''42'')
   \<and> map_option res_sql (returned (ask client_done ''q'' None)) = Some (Some ''SELECT 1'')"
proof -
  let ?atts = "[text_att ''42'', query_att ''SELECT 1'']"
  have t: "only_text (text_att ''42'') ''42''"
    by (simp add: only_text_def text_att_def lookup_def)
  have q: "only_query (query_att ''SELECT 1'') ''SELECT 1''"
    by (simp add: only_query_def query_att_def lookup_def)
  have a: "attachments_of (completed ?atts) = ?atts"
    by (simp add: completed_def)
  have f: "texts_filled ?atts"
    by (simp add: texts_filled_def text_att_def query_att_def lookup_def)
  have l: "last_text ?atts = Some ''42''"
    by (simp add: last_text_def text_att_def query_att_def lookup_def)
  from ask_merges_attachments [OF submission_clients(1) answers_done, of "''q''"]
  obtain tr r where r: "ask client_done ''q'' None = Some (tr, Inr r)"
    and "texts_filled (attachments_of (completed ?atts))
           \<longrightarrow> res_text r = last_text (attachments_of (completed ?atts))"
    and "\<forall>a b t s. only_text a t \<and> only_query b s
             \<and> (attachments_of (completed ?atts) = [a, b]
                \<or> attachments_of (completed ?atts) = [b, a])
           \<longrightarrow> res_text r = Some t \<and> res_sql r = Some s"
    by blast
  with t q a have "res_text r = Some ''42'' \<and> res_sql r = Some ''SELECT 1''" by blast
  with r t q f l submission_clients(1) answers_done show ?thesis by simp
qed

text \<open>
  C3. When the submission succeeds and each of the 34 GETs that the budget allows is
  answered with a status that is not terminal, \<open>ask\<close> returns and does not raise: the
  result has the status TIMEOUT, the fixed error message, no text and no query, empty
  columns and rows, and the conversation and message identifiers obtained from the
  submission. The loop has then slept 9625/32 = 300.78125 time units, more than the budget
  of 300.
\<close>

theorem ask_times_out:
  assumes "submission self question conversation_id = Inr (c, m)"
    and "\<forall>j<34. pending self c m j"
  shows "\<exists>tr. ask self question conversation_id =
           Some (tr, Inr \<lparr>res_status = Some ''TIMEOUT'', res_text = None, res_sql = None,
                          res_columns = Some [], res_rows = Some [],
                          res_error = Some ''Genie did not respond within the timeout period.'',
                          res_conversation_id = c, res_message_id = m\<rparr>)
         \<and> length (gets tr) = 34 \<and> sum_list (sleeps tr) = 9625 / 32"
  unfolding ask_timeout [OF assms]
  by (simp add: timeout_result_def sleeps_poll_events gets_poll_events sum_interval_at
      elapsed_at_34)

theorem ask_times_out_witness:
  "submission client_pending ''q'' None = Inr (Some ''c1'', Some ''m1'')
   \<and> pending client_pending (Some ''c1'') (Some ''m1'') 0
   \<and> pending client_pending (Some ''c1'') (Some ''m1'') 33
   \<and> returned (ask client_pending ''q'' None) =
       Some \<lparr>res_status = Some ''TIMEOUT'', res_text = None, res_sql = None,
             res_columns = Some [], res_rows = Some [],
             res_error = Some ''Genie did not respond within the timeout period.'',
             res_conversation_id = Some ''c1'', res_message_id = Some ''m1''\<rparr>
   \<and> sum_list (sleeps (trace_of (ask client_pending ''q'' None))) = 9625 / 32"
proof -
  from ask_times_out [OF submission_clients(2) pending_client_pending, of "''q''"]
  obtain tr where "ask client_pending ''q'' None =
           Some (tr, Inr \<lparr>res_status = Some ''TIMEOUT'', res_text = None, res_sql = None,
                          res_columns = Some [], res_rows = Some [],
                          res_error = Some ''Genie did not respond within the timeout period.'',
                          res_conversation_id = Some ''c1'', res_message_id = Some ''m1''\<rparr>)"
    and "sum_list (sleeps tr) = 9625 / 32"
    by blast
  with submission_clients(2) pending_client_pending show ?thesis by simp
qed

text \<open>
  C6. When the poll loop ends on a message whose status is FAILED or CANCELLED, \<open>ask\<close>
  returns and does not raise: the result has that status, the remote error message as its
  error (none when the message has no error, \<open>null\<close>, or the empty string), the text and
  query gathered from the attachments, and empty columns and rows, since no tabular result
  is fetched for these statuses.
\<close>

theorem ask_failed_or_cancelled:
  assumes "submission self question conversation_id = Inr (c, m)"
    and "answers self c m K data"
    and "msg_status data = Val s"
    and "s = ''FAILED'' \<or> s = ''CANCELLED''"
  shows "\<exists>tr r. ask self question conversation_id = Some (tr, Inr r)
       \<and> res_status r = Some s
       \<and> res_error r = (case msg_error data of
                          Val msg \<Rightarrow> if msg = [] then None else Some msg
                        | _ \<Rightarrow> None)
       \<and> res_text r = gathered_text (attachments_of data)
       \<and> res_sql r = gathered_query (attachments_of data)
       \<and> res_columns r = Some [] \<and> res_rows r = Some []
       \<and> res_conversation_id r = c \<and> res_message_id r = m"
proof -
  from assms(3,4) have n: "msg_status data \<noteq> Val ''COMPLETED''" by auto
  have e: "error_of data = (case msg_error data of
                          Val msg \<Rightarrow> if msg = [] then None else Some msg
                        | _ \<Rightarrow> None)"
    by (cases "msg_error data") simp_all
  from assms(3) have s: "py_get_or (msg_status data) ''UNKNOWN'' = Some s"
    by simp
  show ?thesis
    unfolding ask_terminal [OF assms(1,2)]
    using parse_response_not_completed [OF n, of self c m] s e
    by (simp add: parse_response_fields del: error_of.simps attachments_of.simps)
qed

theorem ask_failed_or_cancelled_witness:
  "submission client_failed ''q'' None = Inr (Some ''c1'', Some ''m1'')
   \<and> answers client_failed (Some ''c1'') (Some ''m1'') 0
       \<lparr>msg_status = Val ''FAILED'', msg_error = Val ''boom'',
        msg_attachments = Val [text_att ''partial'']\<rparr>
   \<and> map_option res_status (returned (ask client_failed ''q'' None)) = Some (Some ''FAILED'')
   \<and> map_option res_error (returned (ask client_failed ''q'' None)) = Some (Some ''boom'')
   \<and> map_option res_text (returned (ask client_failed ''q'' None)) = Some (Some ''partial'')"
proof -
  from ask_failed_or_cancelled [OF submission_clients(3) answers_clients(1), of "''FAILED''" "''q''"]
  obtain tr r where "ask client_failed ''q'' None = Some (tr, Inr r)"
    and "res_error r = Some ''boom''"
    by auto
  with submission_clients(3) answers_clients(1) returned_client_failed show ?thesis by simp
qed

text \<open>
  C10. In follow-up mode, that is when the caller passes a non-empty continuation token,
  every result that \<open>ask\<close> returns carries exactly that token as its conversation
  identifier, whatever its status.
\<close>

theorem follow_up_keeps_token:
  assumes "truthy conversation_id"
    and "ask self question conversation_id = Some (tr, Inr r)"
  shows "res_conversation_id r = conversation_id"
proof (cases "submission self question conversation_id")
  case (Inl e)
  with assms(2) show ?thesis by (simp add: ask_submission)
next
  case (Inr cm)
  with assms(1) obtain m where cm: "cm = (conversation_id, m)"
    by (auto simp: submission_def split: sum.splits)
  from assms(2) Inr cm
  have p: "poll self conversation_id m [Post (submit_url self conversation_id)] = Some (tr, Inr r)"
    by (simp add: ask_submission)
  show ?thesis
  proof (cases rule: poll_cases [of self conversation_id m "[Post (submit_url self conversation_id)]"])
    case timeout
    with p show ?thesis by (auto simp: timeout_result_def)
  next
    case (error K e)
    with p show ?thesis by simp
  next
    case (terminal K data)
    with p show ?thesis by (auto simp: parse_response_fields)
  qed
qed

theorem follow_up_keeps_token_witness:
  "truthy (Some ''c1'')
   \<and> returned (ask client_followed ''q'' (Some ''c1'')) \<noteq> None
   \<and> map_option res_conversation_id (returned (ask client_followed ''q'' (Some ''c1'')))
       = Some (Some ''c1'')"
proof -
  obtain tr r where a: "ask client_followed ''q'' (Some ''c1'') = Some (tr, Inr r)"
    using returned_client_followed by (elim returnedE)
  have t: "truthy (Some ''c1'')" by simp
  from follow_up_keeps_token [OF t a] a show ?thesis by simp
qed

text \<open>
  C8. For every client, question and token, whatever the service answers, \<open>ask\<close> comes
  back, with a result or an error: the poll loop makes at most 34 iterations, hence at most
  300, since every iteration sleeps at least 1 time unit and the loop stops once the time
  slept reaches 300. The time slept in one call is at most 9625/32 = 300.78125 units. (The
  time a request itself takes is outside the model.)
\<close>

theorem ask_returns_within_budget:
  "\<exists>tr out. ask self question conversation_id = Some (tr, out)
     \<and> length (sleeps tr) \<le> 34 \<and> length (sleeps tr) \<le> 300
     \<and> list_all (\<lambda>d. 1 \<le> d) (sleeps tr)
     \<and> sum_list (sleeps tr) \<le> 9625 / 32"
proof -
  from ask_trace [of self question conversation_id]
  obtain tr out n where a: "ask self question conversation_id = Some (tr, out)"
    and n: "n \<le> 34" and s: "sleeps tr = map interval_at [0..<n]"
    by blast
  have "sum_list (sleeps tr) = elapsed_at n" by (simp add: s sum_interval_at)
  also have "\<dots> \<le> elapsed_at 34" using n by (rule elapsed_at_mono)
  finally have "sum_list (sleeps tr) \<le> 9625 / 32" by (simp only: elapsed_at_34)
  moreover have "list_all (\<lambda>d. 1 \<le> d) (sleeps tr)"
    by (simp add: s list_all_iff interval_at_ge1)
  moreover have "length (sleeps tr) \<le> 34" using n by (simp add: s)
  ultimately show ?thesis using a by auto
qed

theorem ask_returns_within_budget_witness:
  "returned (ask client_pending ''q'' None) \<noteq> None
   \<and> length (sleeps (trace_of (ask client_pending ''q'' None))) \<le> 300
   \<and> sum_list (sleeps (trace_of (ask client_pending ''q'' None))) \<le> 9625 / 32"
proof -
  from ask_returns_within_budget [of client_pending "''q''" None]
  obtain tr out where "ask client_pending ''q'' None = Some (tr, out)"
    and "length (sleeps tr) \<le> 300" and "sum_list (sleeps tr) \<le> 9625 / 32"
    by blast
  with returned_client_pending show ?thesis by simp
qed

text \<open>
  C2, as stated, fails at the sixth delay. Against a service that never reaches a terminal
  status, the first eight delays are 1, 1.5, 2.25, 3.375, 5.0625, 7.59375, 10, 10: the sixth
  is 243/32 = 7.59375, not 7.59.
\<close>

theorem poll_delays_counterexample:
  "take 8 (sleeps (trace_of (poll client_pending (Some ''c1'') (Some ''m1'') [])))
     = [1, 3 / 2, 9 / 4, 27 / 8, 81 / 16, 243 / 32, 10, 10]
   \<and> take 8 (sleeps (trace_of (poll client_pending (Some ''c1'') (Some ''m1'') [])))
     \<noteq> [1, 3 / 2, 9 / 4, 27 / 8, 81 / 16, 759 / 100, 10, 10]"
proof -
  have "sleeps (trace_of (poll client_pending (Some ''c1'') (Some ''m1'') []))
          = [1, 3 / 2, 9 / 4, 27 / 8, 81 / 16, 243 / 32] @ replicate 28 10"
    by (simp only: poll_timeout [OF pending_client_pending] trace_of.simps append_Nil
        sleeps_poll_events interval_at_prefix)
  then show ?thesis by (simp add: eval_nat_numeral)
qed

text \<open>
  C2, amended. In every run of the poll loop the delays slept are the first \<open>n\<close> terms of
  1, 1.5, 2.25, 3.375, 5.0625, 7.59375, 10, 10, 10, ..., where \<open>n\<close> is one more than the
  number of GETs answered in a row with a status that is not terminal, and at most 34: the
  first delay is 1 and is slept before the first GET, every attempt that is not terminal
  is followed by a delay 1.5 times the last, capped at 10, so the \<open>k\<close>-th delay is
  \<open>min (1.5 ^ k) 10\<close>, and none exceeds 10. After seven attempts that are not terminal,
  the first 8 delays are exactly 1, 1.5, 2.25, 3.375, 5.0625, 7.59375, 10, 10. The trace is
  \<open>n\<close> pairs of a sleep and a GET, then the events of the normalisation, which sleeps no
  more.
\<close>

theorem poll_delays:
  "\<exists>tr out tr'. poll self c m [] = Some (tr, out)
     \<and> 1 \<le> polls self c m \<and> polls self c m \<le> 34
     \<and> tr = poll_events (message_url self c m) 0 (polls self c m) @ tr' \<and> sleeps tr' = []
     \<and> sleeps tr = take (polls self c m)
                      ([1, 3 / 2, 9 / 4, 27 / 8, 81 / 16, 243 / 32] @ replicate 28 10)
     \<and> sleeps tr = map (\<lambda>k. min ((3 / 2) ^ k) 10) [0..<polls self c m]
     \<and> list_all (\<lambda>d. d \<le> 10) (sleeps tr)
     \<and> ((\<forall>j<7. pending self c m j)
          \<longrightarrow> take 8 (sleeps tr) = [1, 3 / 2, 9 / 4, 27 / 8, 81 / 16, 243 / 32, 10, 10])"
proof -
  let ?n = "polls self c m"
  let ?schedule = "[1, 3 / 2, 9 / 4, 27 / 8, 81 / 16, 243 / 32] @ replicate 28 (10::rat)"
  from poll_trace_polls [of self c m "[]"]
  obtain tr out tr' where p: "poll self c m [] = Some (tr, out)"
    and tr: "tr = poll_events (message_url self c m) 0 ?n @ tr'" and tr': "sleeps tr' = []"
    by auto
  have n: "1 \<le> ?n" "?n \<le> 34" using polls_range [of self c m] by simp_all
  have s: "sleeps tr = map interval_at [0..<?n]"
    by (simp add: tr tr' sleeps_poll_events)
  have sched: "sleeps tr = take ?n ?schedule"
    unfolding s using n(2) by (rule interval_at_take)
  have closed: "sleeps tr = map (\<lambda>k. min ((3 / 2) ^ k) 10) [0..<?n]"
    unfolding s by (rule map_cong) (simp_all add: interval_at_closed)
  have cap: "list_all (\<lambda>d. d \<le> 10) (sleeps tr)"
    by (simp add: s list_all_iff interval_at_le10)
  have eight: "take 8 (sleeps tr) = [1, 3 / 2, 9 / 4, 27 / 8, 81 / 16, 243 / 32, 10, 10]"
    if "\<forall>j<7. pending self c m j"
  proof -
    have "7 < ?n" using that by (intro polls_pending) simp_all
    then have "min 8 ?n = 8" by simp
    then have "take 8 (sleeps tr) = take 8 ?schedule"
      unfolding sched by (simp only: take_take)
    then show ?thesis by (simp add: eval_nat_numeral)
  qed
  from p n tr tr' sched closed cap eight show ?thesis by blast
qed

theorem poll_delays_witness:
  "pending client_pending (Some ''c1'') (Some ''m1'') 0
   \<and> pending client_pending (Some ''c1'') (Some ''m1'') 6
   \<and> take 8 (sleeps (trace_of (poll client_pending (Some ''c1'') (Some ''m1'') [])))
       = [1, 3 / 2, 9 / 4, 27 / 8, 81 / 16, 243 / 32, 10, 10]
   \<and> polls client_done (Some ''c1'') (Some ''m1'') = 2
   \<and> sleeps (trace_of (poll client_done (Some ''c1'') (Some ''m1'') [])) = [1, 3 / 2]"
proof -
  have pend: "\<forall>j<7. pending client_pending (Some ''c1'') (Some ''m1'') j"
    using pending_client_pending [of "Some ''c1''" "Some ''m1''"] by simp
  from poll_delays [of client_pending "Some ''c1''" "Some ''m1''"] pend
  obtain tr out where "poll client_pending (Some ''c1'') (Some ''m1'') [] = Some (tr, out)"
    and "take 8 (sleeps tr) = [1, 3 / 2, 9 / 4, 27 / 8, 81 / 16, 243 / 32, 10, 10]"
    by blast
  then have a: "take 8 (sleeps (trace_of (poll client_pending (Some ''c1'') (Some ''m1'') [])))
       = [1, 3 / 2, 9 / 4, 27 / 8, 81 / 16, 243 / 32, 10, 10]"
    by simp
  from poll_delays [of client_done "Some ''c1''" "Some ''m1''"]
  obtain tr2 out2 where "poll client_done (Some ''c1'') (Some ''m1'') [] = Some (tr2, out2)"
    and "sleeps tr2 = take (polls client_done (Some ''c1'') (Some ''m1''))
                      ([1, 3 / 2, 9 / 4, 27 / 8, 81 / 16, 243 / 32] @ replicate 28 10)"
    by blast
  then have b: "sleeps (trace_of (poll client_done (Some ''c1'') (Some ''m1'') [])) = [1, 3 / 2]"
    by (simp add: polls_client_done eval_nat_numeral)
  from a b pend show ?thesis by (simp add: polls_client_done)
qed

text \<open>
  C4, as stated, fails when a message names more than one tabular result. The code issues one
  fetch for every attachment that carries an identifier, and keeps the columns and rows of
  the last fetch that succeeded. Here the first fetch succeeds and the second fails: the
  result is COMPLETED with the rows of the first, not with empty rows.
\<close>

theorem ask_tabular_fetch_counterexample:
  "isl (get_query_result client_tables (Some ''c1'') (Some ''m1'') ''b'' 1)
   \<and> map_option res_status (returned (ask client_tables ''q'' None)) = Some (Some ''COMPLETED'')
   \<and> map_option res_columns (returned (ask client_tables ''q'' None)) = Some (Some [''n''])
   \<and> map_option res_rows (returned (ask client_tables ''q'' None)) = Some (Some [[''1'']])"
proof -
  have "isl (get_query_result client_tables (Some ''c1'') (Some ''m1'') ''b'' 1)"
    by (simp add: get_query_result_def client_tables_def client_with_def)
  then show ?thesis by (simp add: returned_client_tables)
qed

text \<open>
  C4, amended. When the poll loop ends on a terminal message, the trace continues with one
  GET of a tabular result for every attachment that carries an identifier, in order, when
  the status is COMPLETED, and with nothing otherwise. The fetches are best-effort: \<open>ask\<close>
  returns and does not raise, and when the status is COMPLETED and every fetch issued
  fails, the result is COMPLETED with the gathered text and query and with empty columns
  and rows.
\<close>

theorem ask_tabular_fetch:
  assumes "submission self question conversation_id = Inr (c, m)"
    and "answers self c m K data"
  shows "\<exists>tr' r. ask self question conversation_id =
           Some (Post (submit_url self conversation_id)
                   # poll_events (message_url self c m) 0 (Suc K) @ tr', Inr r)
       \<and> tr' = (if msg_status data = Val ''COMPLETED''
                then map (\<lambda>a. Get (query_result_url self c m a))
                       (List.map_filter result_id (attachments_of data))
                else [])
       \<and> (msg_status data = Val ''COMPLETED'' \<and> fetches_fail self c m 0 (attachments_of data)
           \<longrightarrow> res_status r = Some ''COMPLETED''
             \<and> res_text r = gathered_text (attachments_of data)
             \<and> res_sql r = gathered_query (attachments_of data)
             \<and> res_columns r = Some [] \<and> res_rows r = Some [])"
proof -
  let ?r = "snd (parse_response self data c m)"
  have "res_status ?r = Some ''COMPLETED'' \<and> res_columns ?r = Some [] \<and> res_rows ?r = Some []"
    if "msg_status data = Val ''COMPLETED''" "fetches_fail self c m 0 (attachments_of data)"
    using parse_response_fail [OF that(2)] that(1) by (simp add: parse_response_fields)
  then show ?thesis
    unfolding ask_terminal [OF assms]
    using parse_response_fields(2,3) [of self data c m] parse_response_events [of self data c m]
    by blast
qed

theorem ask_tabular_fetch_witness:
  "submission client_table_down ''q'' None = Inr (Some ''c1'', Some ''m1'')
   \<and> fetches_fail client_table_down (Some ''c1'') (Some ''m1'') 0
       [\<lparr>att_text = Val [(''content'', Some ''42'')],
         att_query = Val [(''query'', Some ''SELECT 1'')],
         att_attachment_id = Val ''a''\<rparr>]
   \<and> map_option res_status (returned (ask client_table_down ''q'' None)) = Some (Some ''COMPLETED'')
   \<and> map_option res_text (returned (ask client_table_down ''q'' None)) = Some (Some ''42'')
   \<and> map_option res_rows (returned (ask client_table_down ''q'' None)) = Some (Some [])"
proof -
  let ?att = "\<lparr>att_text = Val [(''content'', Some ''42'')],
         att_query = Val [(''query'', Some ''SELECT 1'')],
         att_attachment_id = Val ''a''\<rparr>"
  have f: "fetches_fail client_table_down (Some ''c1'') (Some ''m1'') 0 [?att]"
    by (simp add: get_query_result_def client_table_down_def client_with_def)
  have s: "msg_status (completed [?att]) = Val ''COMPLETED''"
    and a: "attachments_of (completed [?att]) = [?att]"
    by (simp_all add: completed_def)
  from ask_tabular_fetch [OF submission_clients(4) answers_clients(2), of "''q''"] f s a
  obtain tr r where "ask client_table_down ''q'' None = Some (tr, Inr r)"
    and "res_status r = Some ''COMPLETED''" and "res_rows r = Some []"
    by auto
  with f submission_clients(4) returned_client_table_down show ?thesis by simp
qed

text \<open>
  C7, as stated, fails: the source defines no error kinds of its own. A 503 answer to the
  POST and a 503 answer to the first GET of the poll loop make \<open>ask\<close> raise the same
  error, so the error does not tell the caller which phase failed.
\<close>

theorem ask_error_kinds_counterexample:
  "isl (submission client_submit_down ''q'' None)
   \<and> submission client_poll_down ''q'' None = Inr (Some ''c1'', Some ''m1'')
   \<and> raised (ask client_submit_down ''q'' None) = Some (HTTPError 503)
   \<and> raised (ask client_poll_down ''q'' None) = Some (HTTPError 503)"
  by (simp add: submission_clients raised_client_submit_down raised_client_poll_down)

text \<open>
  C7, amended. A hard transport failure during the submission, and one during polling
  (after GETs that were answered with a status that is not terminal), both propagate to
  the caller: \<open>ask\<close> raises the error that the transport raised, unchanged, whatever the
  phase.
\<close>

theorem ask_propagates_transport_error:
  "(submission self question conversation_id = Inl e
      \<longrightarrow> raised (ask self question conversation_id) = Some e)
   \<and> (submission self question conversation_id = Inr (c, m) \<and> K < 34
      \<and> (\<forall>j<K. pending self c m j)
      \<and> fetch_json (session_get_message self (message_url self c m) K) = Inl e
      \<longrightarrow> raised (ask self question conversation_id) = Some e)"
  using ask_submit_error [of self question conversation_id e]
    ask_poll_error [of self question conversation_id c m K e]
  by auto

theorem ask_propagates_transport_error_witness:
  "submission client_submit_down ''q'' None = Inl (HTTPError 503)
   \<and> raised (ask client_submit_down ''q'' None) = Some (HTTPError 503)
   \<and> submission client_poll_down ''q'' None = Inr (Some ''c1'', Some ''m1'')
   \<and> fetch_json (session_get_message client_poll_down
        (message_url client_poll_down (Some ''c1'') (Some ''m1'')) 0) = Inl (HTTPError 503)
   \<and> raised (ask client_poll_down ''q'' None) = Some (HTTPError 503)"
proof -
  have g: "fetch_json (session_get_message client_poll_down
        (message_url client_poll_down (Some ''c1'') (Some ''m1'')) 0) = Inl (HTTPError 503)"
    by (simp add: client_poll_down_def client_with_def)
  from ask_propagates_transport_error
    [of client_submit_down "''q''" None "HTTPError 503" "Some ''c1''" "Some ''m1''" 0]
    ask_propagates_transport_error
    [of client_poll_down "''q''" None "HTTPError 503" "Some ''c1''" "Some ''m1''" 0]
    g submission_clients(6,7)
  show ?thesis by simp
qed

end
